theory Spec2Isabelle
  imports Main "HOL-Library.Word" "HOL-Library.Sublist"
begin

section \<open>Strings: the StringRef and C library operations the check uses\<close>

text \<open>
  \<open>StringRef::endswith(Suffix)\<close>: the suffix is no longer than the string and the
  last \<open>Suffix.size()\<close> characters compare equal.
\<close>

definition endswith :: "string \<Rightarrow> string \<Rightarrow> bool" where
  "endswith s suf =
     (length suf \<le> length s \<and> drop (length s - length suf) s = suf)"

text \<open>
  \<open>std::strcspn(s, reject)\<close> on a NUL-terminated buffer: the length of the longest
  prefix holding neither the terminator nor a character of \<open>reject\<close>.
\<close>

definition strcspn :: "string \<Rightarrow> string \<Rightarrow> nat" where
  "strcspn s reject =
     length (takeWhile (\<lambda>c. c \<noteq> CHR 0x00 \<and> c \<notin> set reject) s)"

section \<open>llvm::sys::path, POSIX flavour\<close>

text \<open>
  \<open>cleanPath\<close> walks a path with the iterator of \<open>llvm::sys::path\<close> and shortens
  its buffer with \<open>parent_path\<close>. Both belong to the LLVM support library, which is
  not part of the sources of the check; they are modelled here for the POSIX
  separator, after the library's documented iteration order: the root name
  (\<open>//net\<close>) if present, the root directory (\<open>/\<close>) if present, each file name,
  and \<open>.\<close> when the path ends in separators that are not the root directory.
\<close>

definition is_separator :: "char \<Rightarrow> bool" where
  "is_separator c = (c = CHR ''/'')"

text \<open>
  The file names of the rest of a path, scanned after the root: \<open>cur\<close> is the name
  being read, \<open>pending\<close> says that separators were skipped since the last name.
\<close>

fun filenames :: "string \<Rightarrow> bool \<Rightarrow> string \<Rightarrow> string list" where
  "filenames cur pending [] =
     (if cur \<noteq> [] then [cur] else if pending then [''.''] else [])"
| "filenames cur pending (c # cs) =
     (if is_separator c
      then (if cur = [] then filenames [] True cs else cur # filenames [] True cs)
      else filenames (cur @ [c]) False cs)"

text \<open>
  \<open>for (I = path::begin(Path); I != path::end(Path); ++I)\<close> visits these components.
  A path that begins with exactly two separators followed by another character
  begins with a root name, which runs up to the next separator; the separator
  after a root name is the root directory.
\<close>

definition path_components :: "string \<Rightarrow> string list" where
  "path_components path =
     (case path of
        [] \<Rightarrow> []
      | c0 # r0 \<Rightarrow>
          if is_separator c0 then
            (case r0 of
               c1 # c2 # r2 \<Rightarrow>
                 if c1 = c0 \<and> \<not> is_separator c2 then
                   (let net = c0 # c1 # takeWhile (\<lambda>c. \<not> is_separator c) (c2 # r2);
                        rest = dropWhile (\<lambda>c. \<not> is_separator c) (c2 # r2)
                    in case rest of
                         [] \<Rightarrow> [net]
                       | s # rest' \<Rightarrow> net # [s] # filenames [] False rest')
                 else [c0] # filenames [] False r0
             | _ \<Rightarrow> [c0] # filenames [] False r0)
          else filenames [] False path)"

text \<open>\<open>StringRef::find_first_of\<close> and \<open>find_last_of\<close> for the separator; \<open>None\<close> is \<open>npos\<close>.\<close>

fun find_first_sep :: "string \<Rightarrow> nat \<Rightarrow> nat option" where
  "find_first_sep [] i = None"
| "find_first_sep (c # cs) i =
     (if is_separator c then Some i else find_first_sep cs (Suc i))"

definition find_first_of_sep :: "string \<Rightarrow> nat \<Rightarrow> nat option" where
  "find_first_of_sep str from = find_first_sep (drop from str) from"

fun find_last_of_sep :: "string \<Rightarrow> nat option" where
  "find_last_of_sep [] = None"
| "find_last_of_sep (c # cs) =
     (case find_last_of_sep cs of
        Some i \<Rightarrow> Some (Suc i)
      | None \<Rightarrow> if is_separator c then Some 0 else None)"

definition filename_pos :: "string \<Rightarrow> nat" where
  "filename_pos str =
     (if length str = 2 \<and> is_separator (str ! 0) \<and> is_separator (str ! 1) then 0
      else if 0 < length str \<and> is_separator (str ! (length str - 1))
      then length str - 1
      else (case find_last_of_sep str of
              None \<Rightarrow> 0
            | Some pos \<Rightarrow>
                if pos = 1 \<and> is_separator (str ! 0) then 0 else pos + 1))"

definition root_dir_start :: "string \<Rightarrow> nat option" where
  "root_dir_start str =
     (if length str = 2 \<and> is_separator (str ! 0) \<and> str ! 0 = str ! 1 then None
      else if 3 < length str \<and> is_separator (str ! 0) \<and> str ! 0 = str ! 1
              \<and> \<not> is_separator (str ! 2)
      then find_first_of_sep str 2
      else if 0 < length str \<and> is_separator (str ! 0) then Some 0
      else None)"

text \<open>
  The loop of \<open>parent_path_end\<close> that steps back over the separators before the
  file name, stopping at the root directory.
\<close>

fun skip_separators_back :: "string \<Rightarrow> nat option \<Rightarrow> nat \<Rightarrow> nat" where
  "skip_separators_back path root_dir_pos 0 = 0"
| "skip_separators_back path root_dir_pos (Suc e) =
     (if Some e \<noteq> root_dir_pos \<and> is_separator (path ! e)
      then skip_separators_back path root_dir_pos e
      else Suc e)"

definition parent_path_end :: "string \<Rightarrow> nat option" where
  "parent_path_end path =
     (let end_pos0 = filename_pos path;
          filename_was_sep = (0 < length path \<and> is_separator (path ! end_pos0));
          root_dir_pos = root_dir_start (take end_pos0 path);
          end_pos = skip_separators_back path root_dir_pos end_pos0
      in if end_pos = 1 \<and> root_dir_pos = Some 0 \<and> filename_was_sep then None
         else Some end_pos)"

definition parent_path :: "string \<Rightarrow> string" where
  "parent_path path =
     (case parent_path_end path of None \<Rightarrow> [] | Some end_pos \<Rightarrow> take end_pos path)"

section \<open>cleanPath\<close>

text \<open>
  The body of the loop of \<open>cleanPath\<close>, for one component \<open>I\<close> and the buffer
  \<open>NewPath\<close>: \<open>.\<close> is skipped, \<open>..\<close> cuts the buffer down to its parent path, any
  other component is appended, after a \<open>/\<close> when the buffer is not empty.
\<close>

definition cleanPath_step :: "string \<Rightarrow> string \<Rightarrow> string" where
  "cleanPath_step NewPath I =
     (if I = ''.'' then NewPath
      else if I = ''..'' then take (length (parent_path NewPath)) NewPath
      else (if NewPath \<noteq> [] then NewPath @ ''/'' else NewPath) @ I)"

definition cleanPath :: "string \<Rightarrow> string" where
  "cleanPath Path = foldl cleanPath_step [] (path_components Path)"

section \<open>The data of the preprocessor that the callbacks read\<close>

text \<open>
  A \<open>SourceLocation\<close> is an opaque 32-bit handle; the default-constructed location
  has the encoding 0 and is the only invalid one. \<open>getLocWithOffset\<close> adds an
  offset to the encoding.
\<close>

type_synonym SourceLocation = "32 word"

definition isValid :: "SourceLocation \<Rightarrow> bool" where
  "isValid Loc = (Loc \<noteq> 0)"

definition getLocWithOffset :: "SourceLocation \<Rightarrow> nat \<Rightarrow> SourceLocation" where
  "getLocWithOffset Loc Offset = Loc + word_of_nat Offset"

type_synonym FileID = int

text \<open>
  An \<open>IdentifierInfo\<close> is interned by the identifier table: two pointers are equal
  exactly when the spellings are, so the pointer is modelled by the spelling.
\<close>

datatype IdentifierInfo = IdentifierInfo (II_getName: string)

datatype Token = Token (getIdentifierInfo: IdentifierInfo) (getLocation: SourceLocation)

text \<open>
  The \<open>MacroInfo\<close> behind a recorded \<open>MacroDirective\<close>, as \<open>EndOfMainFile\<close> reads
  it: the verdict of the preprocessor's header guard detection and the location
  of the definition.
\<close>

datatype MacroInfo =
  MacroInfo (isUsedForHeaderGuard: bool) (getDefinitionLoc: SourceLocation)

datatype MacroDirective = MacroDirective (getMacroInfo: MacroInfo)

datatype FileEntry = FileEntry (FE_getName: string) (FE_getUID: nat)

datatype FileChangeReason = EnterFile | ExitFile | SystemHeaderPragma | RenameFile

datatype CharacteristicKind = C_User | C_System | C_ExternCSystem

text \<open>
  The queries of the \<open>SourceManager\<close> that the callbacks make. \<open>getFileEntryForID\<close>
  returns a pointer that may be null (\<open>None\<close>); \<open>getCharacterData\<close> returns the
  buffer from the location on (a placeholder text for a location it cannot
  resolve).
\<close>

record SourceManager =
  getFileID :: "SourceLocation \<Rightarrow> FileID"
  getFileEntryForID :: "FileID \<Rightarrow> FileEntry option"
  translateFile :: "FileEntry \<Rightarrow> FileID"
  getLocForStartOfFile :: "FileID \<Rightarrow> SourceLocation"
  getLocForEndOfFile :: "FileID \<Rightarrow> SourceLocation"
  isWrittenInSameFile :: "SourceLocation \<Rightarrow> SourceLocation \<Rightarrow> bool"
  getCharacterData :: "SourceLocation \<Rightarrow> string"

section \<open>Diagnostics and fix-its\<close>

datatype CharSourceRange =
  getTokenRange SourceLocation SourceLocation
| getCharRange SourceLocation SourceLocation

datatype FixItHint =
  CreateReplacement CharSourceRange string
| CreateInsertion SourceLocation string

datatype Diagnostic =
  Diagnostic (diagLoc: SourceLocation) (diagMessage: string) (diagFixIts: "FixItHint list")

section \<open>The policy hooks of HeaderGuardCheck\<close>

text \<open>
  The virtual functions of the check. \<open>getHeaderGuard\<close> is pure virtual and takes
  the file name and the old guard (empty when the caller gives none).
\<close>

record HeaderGuardCheck =
  shouldSuggestEndifComment :: "string \<Rightarrow> bool"
  shouldFixHeaderGuard :: "string \<Rightarrow> bool"
  shouldSuggestToAddHeaderGuard :: "string \<Rightarrow> bool"
  getHeaderGuard :: "string \<Rightarrow> string \<Rightarrow> string"

definition default_shouldSuggestEndifComment :: "string \<Rightarrow> bool" where
  "default_shouldSuggestEndifComment FileName = endswith FileName ''.h''"

definition default_shouldFixHeaderGuard :: "string \<Rightarrow> bool" where
  "default_shouldFixHeaderGuard FileName = True"

definition default_shouldSuggestToAddHeaderGuard :: "string \<Rightarrow> bool" where
  "default_shouldSuggestToAddHeaderGuard FileName = endswith FileName ''.h''"

text \<open>A check that overrides nothing but the pure virtual \<open>getHeaderGuard\<close>.\<close>

definition default_check :: "(string \<Rightarrow> string \<Rightarrow> string) \<Rightarrow> HeaderGuardCheck" where
  "default_check guard =
     \<lparr> shouldSuggestEndifComment = default_shouldSuggestEndifComment,
       shouldFixHeaderGuard = default_shouldFixHeaderGuard,
       shouldSuggestToAddHeaderGuard = default_shouldSuggestToAddHeaderGuard,
       getHeaderGuard = guard \<rparr>"

section \<open>The state of HeaderGuardPPCallbacks\<close>

text \<open>
  \<open>Files\<close> is an \<open>llvm::StringMap\<close>: at most one value for a key. It is kept as a
  list of pairs, assigned and erased by key. The list keeps the keys in the order
  of their first assignment, whereas the map is iterated in the order of its hash
  buckets, which the source does not fix: the diagnostics of different files may
  come out in another order than here, and no property below speaks of that order.
\<close>

fun StringMap_assign :: "string \<Rightarrow> 'v \<Rightarrow> (string \<times> 'v) list \<Rightarrow> (string \<times> 'v) list" where
  "StringMap_assign k v [] = [(k, v)]"
| "StringMap_assign k v (p # ps) =
     (if fst p = k then (k, v) # ps else p # StringMap_assign k v ps)"

definition StringMap_erase :: "string \<Rightarrow> (string \<times> 'v) list \<Rightarrow> (string \<times> 'v) list" where
  "StringMap_erase k m = filter (\<lambda>p. fst p \<noteq> k) m"

text \<open>
  \<open>std::map::operator[]\<close>: the value under the key, after inserting a
  value-initialised one when the key is missing.
\<close>

definition map_subscript :: "('k \<rightharpoonup> 'v) \<Rightarrow> 'v \<Rightarrow> 'k \<Rightarrow> 'v \<times> ('k \<rightharpoonup> 'v)" where
  "map_subscript m dflt k =
     (case m k of Some v \<Rightarrow> (v, m) | None \<Rightarrow> (dflt, m(k \<mapsto> dflt)))"

record PPState =
  Macros :: "(Token \<times> MacroDirective) list"
  Files :: "(string \<times> FileEntry) list"
  Ifndefs :: "IdentifierInfo \<rightharpoonup> (SourceLocation \<times> SourceLocation)"
  EndIfs :: "SourceLocation \<rightharpoonup> SourceLocation"

definition initial_state :: PPState where
  "initial_state = \<lparr> Macros = [], Files = [], Ifndefs = Map.empty, EndIfs = Map.empty \<rparr>"

section \<open>The callbacks that record\<close>

definition FileChanged ::
  "SourceManager \<Rightarrow> SourceLocation \<Rightarrow> FileChangeReason \<Rightarrow> CharacteristicKind \<Rightarrow> FileID
     \<Rightarrow> PPState \<Rightarrow> PPState" where
  "FileChanged SM Loc Reason FileType PrevFID st =
     (if Reason = EnterFile \<and> FileType = C_User then
        (case getFileEntryForID SM (getFileID SM Loc) of
           Some FE \<Rightarrow>
             st\<lparr> Files := StringMap_assign (cleanPath (FE_getName FE)) FE (Files st) \<rparr>
         | None \<Rightarrow> st)
      else st)"

definition Ifndef ::
  "SourceLocation \<Rightarrow> Token \<Rightarrow> MacroDirective option \<Rightarrow> PPState \<Rightarrow> PPState" where
  "Ifndef Loc MacroNameTok MD st =
     (case MD of
        Some d \<Rightarrow> st
      | None \<Rightarrow>
          st\<lparr> Ifndefs := (Ifndefs st)(getIdentifierInfo MacroNameTok \<mapsto>
                              (Loc, getLocation MacroNameTok)) \<rparr>)"

definition MacroDefined :: "Token \<Rightarrow> MacroDirective \<Rightarrow> PPState \<Rightarrow> PPState" where
  "MacroDefined MacroNameTok MD st = st\<lparr> Macros := Macros st @ [(MacroNameTok, MD)] \<rparr>"

definition Endif :: "SourceLocation \<Rightarrow> SourceLocation \<Rightarrow> PPState \<Rightarrow> PPState" where
  "Endif Loc IfLoc st = st\<lparr> EndIfs := (EndIfs st)(IfLoc \<mapsto> Loc) \<rparr>"

text \<open>The preprocessor's calls of one translation unit, before \<open>EndOfMainFile\<close>.\<close>

datatype Event =
  EvFileChanged SourceLocation FileChangeReason CharacteristicKind FileID
| EvIfndef SourceLocation Token "MacroDirective option"
| EvMacroDefined Token MacroDirective
| EvEndif SourceLocation SourceLocation

fun handle :: "SourceManager \<Rightarrow> PPState \<Rightarrow> Event \<Rightarrow> PPState" where
  "handle SM st (EvFileChanged Loc Reason FileType PrevFID) =
     FileChanged SM Loc Reason FileType PrevFID st"
| "handle SM st (EvIfndef Loc MacroNameTok MD) = Ifndef Loc MacroNameTok MD st"
| "handle SM st (EvMacroDefined MacroNameTok MD) = MacroDefined MacroNameTok MD st"
| "handle SM st (EvEndif Loc IfLoc) = Endif Loc IfLoc st"

definition record_events :: "SourceManager \<Rightarrow> Event list \<Rightarrow> PPState" where
  "record_events SM evs = foldl (handle SM) initial_state evs"

section \<open>The checks of EndOfMainFile\<close>

definition checkHeaderGuardDefinition ::
  "HeaderGuardCheck \<Rightarrow> SourceLocation \<Rightarrow> SourceLocation \<Rightarrow> string \<Rightarrow> string
     \<Rightarrow> string \<times> Diagnostic list" where
  "checkHeaderGuardDefinition Check IfndefLoc Define FileName CurHeaderGuard =
     (let CPPVar = getHeaderGuard Check FileName CurHeaderGuard;
          CPPVarUnder = CPPVar @ ''_''
      in if isValid IfndefLoc \<and> CurHeaderGuard \<noteq> CPPVar \<and> CurHeaderGuard \<noteq> CPPVarUnder
         then (CPPVar,
               [Diagnostic IfndefLoc ''header guard does not follow preferred style''
                  [CreateReplacement
                     (getTokenRange IfndefLoc
                        (getLocWithOffset IfndefLoc (length CurHeaderGuard)))
                     CPPVar,
                   CreateReplacement
                     (getTokenRange Define
                        (getLocWithOffset Define (length CurHeaderGuard)))
                     CPPVar]])
         else (CurHeaderGuard, []))"

definition checkEndifComment ::
  "SourceManager \<Rightarrow> SourceLocation \<Rightarrow> string \<Rightarrow> Diagnostic list" where
  "checkEndifComment SM EndIf HeaderGuard =
     (let EndIfData = getCharacterData SM EndIf;
          EndIfLen = strcspn EndIfData [CHR 0x0D, CHR 0x0A];
          EndIfStr = take EndIfLen EndIfData
      in if isValid EndIf \<and> \<not> endswith EndIfStr (''// '' @ HeaderGuard)
            \<and> \<not> endswith EndIfStr (''/* '' @ HeaderGuard @ '' */'')
         then [Diagnostic EndIf
                 ''#endif for a header guard should reference the guard macro in a comment''
                 [CreateReplacement
                    (getCharRange EndIf (getLocWithOffset EndIf EndIfLen))
                    (''endif  // '' @ HeaderGuard)]]
         else [])"

text \<open>
  A null \<open>FileEntry\<close> is dereferenced without a test in the loop of
  \<open>EndOfMainFile\<close>; that is the one way the handler fails.
\<close>

datatype error = NullFileEntry

text \<open>
  One round of the loop over \<open>Macros\<close>: the state and the diagnostics emitted so
  far go in, and come out updated, unless the round fails.
\<close>

definition checkMacroEntry ::
  "SourceManager \<Rightarrow> HeaderGuardCheck \<Rightarrow> Token \<times> MacroDirective
     \<Rightarrow> PPState \<times> Diagnostic list \<Rightarrow> error + (PPState \<times> Diagnostic list)" where
  "checkMacroEntry SM Check MacroEntry acc =
     (let st = fst acc; diags = snd acc;
          MI = getMacroInfo (snd MacroEntry)
      in if \<not> isUsedForHeaderGuard MI then Inr (st, diags)
         else
           (case getFileEntryForID SM (getFileID SM (getDefinitionLoc MI)) of
              None \<Rightarrow> Inl NullFileEntry
            | Some FE \<Rightarrow>
                (let FileName = cleanPath (FE_getName FE);
                     st1 = st\<lparr> Files := StringMap_erase FileName (Files st) \<rparr>
                 in if \<not> shouldFixHeaderGuard Check FileName then Inr (st1, diags)
                    else
                      (let II = getIdentifierInfo (fst MacroEntry);
                           (p1, Ifndefs1) = map_subscript (Ifndefs st1) (0, 0) II;
                           IfndefLoc = snd p1;
                           Define = getLocation (fst MacroEntry);
                           (p2, Ifndefs2) = map_subscript Ifndefs1 (0, 0) II;
                           (EndIf, EndIfs1) = map_subscript (EndIfs st1) 0 (fst p2);
                           st2 = st1\<lparr> Ifndefs := Ifndefs2, EndIfs := EndIfs1 \<rparr>;
                           CurHeaderGuard = II_getName II;
                           (NewGuard, diags1) =
                             checkHeaderGuardDefinition Check IfndefLoc Define FileName
                               CurHeaderGuard
                       in if shouldSuggestEndifComment Check FileName
                          then Inr (st2, diags @ diags1 @ checkEndifComment SM EndIf NewGuard)
                          else Inr (st2, diags @ diags1)))))"

fun checkMacros ::
  "SourceManager \<Rightarrow> HeaderGuardCheck \<Rightarrow> (Token \<times> MacroDirective) list
     \<Rightarrow> PPState \<times> Diagnostic list \<Rightarrow> error + (PPState \<times> Diagnostic list)" where
  "checkMacros SM Check [] acc = Inr acc"
| "checkMacros SM Check (MacroEntry # rest) acc =
     (case checkMacroEntry SM Check MacroEntry acc of
        Inl e \<Rightarrow> Inl e
      | Inr acc' \<Rightarrow> checkMacros SM Check rest acc')"

text \<open>
  The test of the inner loop of \<open>checkGuardlessHeaders\<close>: the macro is spelled as
  the guard of the file (or with one more underscore) and its name token is
  written in the file.
\<close>

definition isGuardMacroOf ::
  "SourceManager \<Rightarrow> SourceLocation \<Rightarrow> string \<Rightarrow> Token \<times> MacroDirective \<Rightarrow> bool" where
  "isGuardMacroOf SM StartLoc CPPVar MacroEntry =
     (let Name = II_getName (getIdentifierInfo (fst MacroEntry));
          DefineLoc = getLocation (fst MacroEntry)
      in (Name = CPPVar \<or> Name = CPPVar @ ''_'')
         \<and> isWrittenInSameFile SM StartLoc DefineLoc)"

text \<open>The body of the loop of \<open>checkGuardlessHeaders\<close> for one entry of \<open>Files\<close>.\<close>

definition checkGuardlessHeader ::
  "SourceManager \<Rightarrow> HeaderGuardCheck \<Rightarrow> (Token \<times> MacroDirective) list
     \<Rightarrow> string \<times> FileEntry \<Rightarrow> Diagnostic list" where
  "checkGuardlessHeader SM Check Ms FE =
     (let FileName = fst FE
      in if \<not> shouldSuggestToAddHeaderGuard Check FileName then []
         else
           (let FID = translateFile SM (snd FE);
                StartLoc = getLocForStartOfFile SM FID
            in if \<not> isValid StartLoc then []
               else
                 (let CPPVar = getHeaderGuard Check FileName []
                  in case find (isGuardMacroOf SM StartLoc CPPVar) Ms of
                       Some MacroEntry \<Rightarrow>
                         [Diagnostic (getLocation (fst MacroEntry))
                            ''Header guard after code/includes. Consider moving it up.'' []]
                     | None \<Rightarrow>
                         [Diagnostic StartLoc ''header is missing header guard''
                            [CreateInsertion StartLoc
                               (''#ifndef '' @ CPPVar @ [CHR 0x0A] @ ''#define '' @ CPPVar
                                  @ [CHR 0x0A, CHR 0x0A]),
                             CreateInsertion (getLocForEndOfFile SM FID)
                               (if shouldSuggestEndifComment Check FileName
                                then [CHR 0x0A] @ ''#endif  // '' @ CPPVar @ [CHR 0x0A]
                                else [CHR 0x0A] @ ''#endif'' @ [CHR 0x0A])]])))"

definition checkGuardlessHeaders ::
  "SourceManager \<Rightarrow> HeaderGuardCheck \<Rightarrow> PPState \<Rightarrow> Diagnostic list" where
  "checkGuardlessHeaders SM Check st =
     concat (map (checkGuardlessHeader SM Check (Macros st)) (Files st))"

definition EndOfMainFile ::
  "SourceManager \<Rightarrow> HeaderGuardCheck \<Rightarrow> PPState \<Rightarrow> error + (PPState \<times> Diagnostic list)" where
  "EndOfMainFile SM Check st =
     (case checkMacros SM Check (Macros st) (st, []) of
        Inl e \<Rightarrow> Inl e
      | Inr acc \<Rightarrow>
          Inr (fst acc\<lparr> Macros := [], Files := [], Ifndefs := Map.empty, EndIfs := Map.empty \<rparr>,
               snd acc @ checkGuardlessHeaders SM Check (fst acc)))"

text \<open>One translation unit: the recorded calls, then \<open>EndOfMainFile\<close>.\<close>

definition run_unit ::
  "SourceManager \<Rightarrow> HeaderGuardCheck \<Rightarrow> Event list \<Rightarrow> error + (PPState \<times> Diagnostic list)" where
  "run_unit SM Check evs = EndOfMainFile SM Check (record_events SM evs)"

section \<open>Notation for stating the properties\<close>

text \<open>
  \<open>rest_of_line\<close> is the text from a position of a buffer up to the end of its
  line; \<open>lookupIfndef\<close> and \<open>lookupEndIf\<close> are what \<open>operator[]\<close> returns from
  \<open>Ifndefs\<close> and \<open>EndIfs\<close> in the loop of \<open>EndOfMainFile\<close>.
\<close>

abbreviation rest_of_line :: "string \<Rightarrow> string" where
  "rest_of_line s \<equiv> takeWhile (\<lambda>c. c \<noteq> CHR 0x00 \<and> c \<noteq> CHR 0x0D \<and> c \<noteq> CHR 0x0A) s"

abbreviation lookupIfndef :: "PPState \<Rightarrow> IdentifierInfo \<Rightarrow> SourceLocation \<times> SourceLocation" where
  "lookupIfndef st II \<equiv> fst (map_subscript (Ifndefs st) (0, 0) II)"

abbreviation lookupEndIf :: "PPState \<Rightarrow> SourceLocation \<Rightarrow> SourceLocation" where
  "lookupEndIf st IfLoc \<equiv> fst (map_subscript (EndIfs st) 0 IfLoc)"

section \<open>Relative paths in normal form\<close>

text \<open>
  A plain name is a component that \<open>cleanPath\<close> appends: not empty, without a
  separator, and neither \<open>.\<close> nor \<open>..\<close>. A path is normal when it is a sequence
  of plain names joined by single separators; it is then relative.
\<close>

definition plain_name :: "string \<Rightarrow> bool" where
  "plain_name n = (n \<noteq> [] \<and> list_all (\<lambda>c. \<not> is_separator c) n \<and> n \<noteq> ''.'' \<and> n \<noteq> ''..'')"

fun join_names :: "string list \<Rightarrow> string" where
  "join_names [] = []"
| "join_names [n] = n"
| "join_names (n # m # ns) = n @ ''/'' @ join_names (m # ns)"

definition normal_path :: "string \<Rightarrow> bool" where
  "normal_path s = (\<exists>ns. list_all plain_name ns \<and> s = join_names ns)"

section \<open>A small translation unit for the examples\<close>

text \<open>
  A source manager whose locations below 100 lie in the file with id 1 and the
  others in the file with id 2. The header \<open>include/foo/bar.h\<close> is guarded by
  \<open>BAR_H\<close>; its check derives the guard \<open>FOO_BAR_H\<close> for every path.
\<close>

definition example_SM ::
  "(FileID \<Rightarrow> FileEntry option) \<Rightarrow> SourceLocation \<Rightarrow> string \<Rightarrow> SourceManager" where
  "example_SM entries start text =
     \<lparr> getFileID = (\<lambda>Loc. if Loc < 100 then 1 else 2),
       getFileEntryForID = entries,
       translateFile = (\<lambda>FE. int (FE_getUID FE)),
       getLocForStartOfFile = (\<lambda>FID. start),
       getLocForEndOfFile = (\<lambda>FID. 90),
       isWrittenInSameFile = (\<lambda>a b. True),
       getCharacterData = (\<lambda>Loc. text) \<rparr>"

definition bar_h :: FileEntry where
  "bar_h = FileEntry ''include/foo/bar.h'' 1"

definition main_h :: FileEntry where
  "main_h = FileEntry ''main.h'' 1"

definition main_cpp :: FileEntry where
  "main_cpp = FileEntry ''main.cpp'' 1"

definition example_check :: HeaderGuardCheck where
  "example_check = default_check (\<lambda>FileName OldGuard. ''FOO_BAR_H'')"

definition BAR_H :: "Token \<times> MacroDirective" where
  "BAR_H = (Token (IdentifierInfo ''BAR_H'') 20, MacroDirective (MacroInfo True 20))"

definition FOO_BAR_H :: "Token \<times> MacroDirective" where
  "FOO_BAR_H = (Token (IdentifierInfo ''FOO_BAR_H'') 40, MacroDirective (MacroInfo False 40))"

text \<open>
  A later definition spelled with the trailing underscore, and the macro of
  another header, flagged as its guard.
\<close>

definition FOO_BAR_H_again :: "Token \<times> MacroDirective" where
  "FOO_BAR_H_again = (Token (IdentifierInfo ''FOO_BAR_H_'') 70, MacroDirective (MacroInfo False 70))"

definition BAZ_H :: "Token \<times> MacroDirective" where
  "BAZ_H = (Token (IdentifierInfo ''BAZ_H'') 70, MacroDirective (MacroInfo True 70))"

section \<open>Properties of the string operations\<close>

lemma endswith_suffix: "endswith s suf \<longleftrightarrow> suffix suf s"
proof
  assume "endswith s suf"
  then have "s = take (length s - length suf) s @ suf"
    by (metis append_take_drop_id endswith_def)
  then show "suffix suf s" by (metis suffixI)
next
  assume "suffix suf s"
  then obtain zs where "s = zs @ suf" by (auto simp: suffix_def)
  then show "endswith s suf" by (simp add: endswith_def)
qed

lemma take_strcspn:
  "take (strcspn s [CHR 0x0D, CHR 0x0A]) s =
     takeWhile (\<lambda>c. c \<noteq> CHR 0x00 \<and> c \<noteq> CHR 0x0D \<and> c \<noteq> CHR 0x0A) s"
proof -
  have "(\<lambda>c. c \<noteq> CHR 0x00 \<and> c \<notin> set [CHR 0x0D, CHR 0x0A]) =
        (\<lambda>c. c \<noteq> CHR 0x00 \<and> c \<noteq> CHR 0x0D \<and> c \<noteq> CHR 0x0A)"
    by (auto simp: fun_eq_iff)
  then show ?thesis
    unfolding strcspn_def by (simp add: takeWhile_eq_take [symmetric])
qed

lemma strcspn_length:
  "strcspn s [CHR 0x0D, CHR 0x0A] =
     length (takeWhile (\<lambda>c. c \<noteq> CHR 0x00 \<and> c \<noteq> CHR 0x0D \<and> c \<noteq> CHR 0x0A) s)"
  using take_strcspn [of s] unfolding strcspn_def
  by (metis (no_types, lifting) length_take min.absorb2 length_takeWhile_le)

section \<open>The path library on the examples of its documentation\<close>

text \<open>
  The iteration examples and the parent paths that the header of the library
  lists, as a check of the model.
\<close>

lemma path_components_examples:
  "path_components ''/'' = [''/'']"
  "path_components ''/foo'' = [''/'', ''foo'']"
  "path_components ''foo/'' = [''foo'', ''.'']"
  "path_components ''/foo/bar'' = [''/'', ''foo'', ''bar'']"
  "path_components ''../'' = [''..'', ''.'']"
  "path_components ''//net/hello'' = [''//net'', ''/'', ''hello'']"
  by (simp_all add: path_components_def is_separator_def)

lemma parent_path_examples:
  "parent_path ''/'' = ''''"
  "parent_path ''/foo'' = ''/''"
  "parent_path ''foo/../bar'' = ''foo/..''"
  by (simp_all add: parent_path_def parent_path_end_def filename_pos_def root_dir_start_def
      is_separator_def find_first_of_sep_def)

section \<open>cleanPath\<close>

text \<open>
  Claim C8 says that \<open>cleanPath\<close> is idempotent on every path. It is not on an
  absolute path with two components: the root directory \<open>/\<close> is a component of
  its own, the loop joins it to the next component with another \<open>/\<close>, and the
  result \<open>//foo/bar\<close> begins with a root name \<open>//foo\<close> when it is cleaned again,
  which the loop joins to the root directory after it.
\<close>

theorem cleanPath_absolute:
  "cleanPath ''/foo/bar'' = ''//foo/bar''
   \<and> cleanPath (cleanPath ''/foo/bar'') = ''//foo///bar''
   \<and> cleanPath (cleanPath ''/foo/bar'') \<noteq> cleanPath ''/foo/bar''"
  by (simp add: cleanPath_def path_components_def is_separator_def cleanPath_step_def)

subsection \<open>Relative paths\<close>

lemma join_names_Cons:
  "ns \<noteq> [] \<Longrightarrow> join_names (n # ns) = n @ ''/'' @ join_names ns"
  by (cases ns) simp_all

lemma join_names_snoc:
  "ns \<noteq> [] \<Longrightarrow> join_names (ns @ [n]) = join_names ns @ ''/'' @ n"
proof (induction ns rule: join_names.induct)
  case 1
  then show ?case by simp
next
  case (2 m)
  then show ?case by simp
next
  case (3 a b ns)
  then show ?case by simp
qed

lemma join_names_empty:
  "list_all plain_name ns \<Longrightarrow> join_names ns = [] \<longleftrightarrow> ns = []"
  by (induction ns rule: join_names.induct) (simp_all add: plain_name_def)

lemma join_names_hd:
  "list_all plain_name ns \<Longrightarrow> ns \<noteq> [] \<Longrightarrow> \<not> is_separator (hd (join_names ns))"
proof (induction ns rule: join_names.induct)
  case 1
  then show ?case by simp
next
  case (2 n)
  then show ?case by (cases n) (simp_all add: plain_name_def)
next
  case (3 n m ns)
  then show ?case by (cases n) (simp_all add: plain_name_def)
qed

lemma join_names_last:
  "list_all plain_name ns \<Longrightarrow> ns \<noteq> [] \<Longrightarrow> \<not> is_separator (last (join_names ns))"
proof (induction ns rule: join_names.induct)
  case 1
  then show ?case by simp
next
  case (2 n)
  then have "n \<noteq> []" and "list_all (\<lambda>c. \<not> is_separator c) n"
    by (simp_all add: plain_name_def)
  then show ?case by (simp add: list_all_iff)
next
  case (3 n m ns)
  from 3 have "join_names (m # ns) \<noteq> []"
    using join_names_empty [of "m # ns"] by simp
  with 3 show ?case by simp
qed

lemma find_last_of_sep_none:
  "list_all (\<lambda>c. \<not> is_separator c) n \<Longrightarrow> find_last_of_sep n = None"
  by (induction n) simp_all

lemma find_last_of_sep_append:
  "find_last_of_sep (xs @ ys) =
     (case find_last_of_sep ys of
        Some i \<Rightarrow> Some (length xs + i)
      | None \<Rightarrow> find_last_of_sep xs)"
  by (induction xs) (simp_all split: option.splits)

lemma find_last_of_sep_name:
  "list_all (\<lambda>c. \<not> is_separator c) n \<Longrightarrow>
   find_last_of_sep (xs @ ''/'' @ n) = Some (length xs)"
  by (simp add: find_last_of_sep_append find_last_of_sep_none is_separator_def)

lemma root_dir_start_relative:
  "str = [] \<or> \<not> is_separator (hd str) \<Longrightarrow> root_dir_start str = None"
  by (cases str) (auto simp: root_dir_start_def)

lemma parent_path_single:
  assumes "n \<noteq> []" and "list_all (\<lambda>c. \<not> is_separator c) n"
  shows "parent_path n = []"
proof -
  from assms have h: "\<not> is_separator (n ! 0)" and l: "\<not> is_separator (n ! (length n - 1))"
    by (simp_all add: list_all_length)
  from assms(2) have "find_last_of_sep n = None" by (rule find_last_of_sep_none)
  with h l have "filename_pos n = 0" by (simp add: filename_pos_def)
  then show ?thesis
    by (simp add: parent_path_def parent_path_end_def root_dir_start_def)
qed

lemma parent_path_snoc:
  assumes xs: "xs \<noteq> []" "\<not> is_separator (hd xs)" "\<not> is_separator (last xs)"
    and n: "n \<noteq> []" "list_all (\<lambda>c. \<not> is_separator c) n"
  shows "parent_path (xs @ ''/'' @ n) = xs"
proof -
  let ?s = "xs @ ''/'' @ n"
  let ?k = "length xs"
  from xs have s0: "\<not> is_separator (?s ! 0)"
    by (cases xs) simp_all
  from n have "\<not> is_separator (last n)" by (simp add: list_all_iff)
  with n have sl: "\<not> is_separator (?s ! (length ?s - 1))"
    by (metis append_is_Nil_conv last_appendR last_conv_nth list.distinct(1)
        append_Cons append_Nil)
  from n(2) have fl: "find_last_of_sep ?s = Some ?k" by (rule find_last_of_sep_name)
  from s0 sl fl have fp: "filename_pos ?s = Suc ?k"
    by (simp add: filename_pos_def)
  have tk: "take (Suc ?k) ?s = xs @ ''/''" by simp
  from xs have "\<not> is_separator (hd (xs @ ''/''))" by simp
  then have rd: "root_dir_start (take (Suc ?k) ?s) = None"
    unfolding tk by (intro root_dir_start_relative) simp
  from xs obtain k' where k': "?k = Suc k'" by (cases xs) simp_all
  from xs have "?s ! k' = last xs"
    unfolding k' [symmetric]
    by (metis k' diff_Suc_1 last_conv_nth lessI nth_append)
  with xs have nk: "\<not> is_separator (?s ! k')" by simp
  have sk: "is_separator (?s ! ?k)" by (simp add: is_separator_def)
  have "skip_separators_back ?s None (Suc ?k) = skip_separators_back ?s None ?k"
    using sk by simp
  also have "\<dots> = ?k"
  proof -
    from nk have "skip_separators_back ?s None (Suc k') = Suc k'" by simp
    then show ?thesis by (simp only: k' [symmetric])
  qed
  finally have sb: "skip_separators_back ?s None (Suc ?k) = ?k" .
  have "parent_path_end ?s = Some ?k"
    unfolding parent_path_end_def Let_def fp rd sb by simp
  then show ?thesis by (simp add: parent_path_def)
qed

lemma parent_path_empty: "parent_path [] = []"
  by (simp add: parent_path_def parent_path_end_def filename_pos_def root_dir_start_def)

lemma plain_name_nonsep: "plain_name n \<Longrightarrow> n \<noteq> [] \<and> list_all (\<lambda>c. \<not> is_separator c) n"
  by (simp add: plain_name_def)

lemma parent_path_join:
  assumes "list_all plain_name ns"
  shows "parent_path (join_names ns) = join_names (butlast ns)"
proof (cases ns rule: rev_cases)
  case Nil
  then show ?thesis by (simp add: parent_path_empty)
next
  case (snoc ms n)
  with assms have ms: "list_all plain_name ms" and n: "plain_name n" by simp_all
  show ?thesis
  proof (cases "ms = []")
    case True
    with snoc n show ?thesis
      by (simp add: parent_path_single plain_name_nonsep)
  next
    case False
    from ms False have "join_names ms \<noteq> []"
      and "\<not> is_separator (hd (join_names ms))"
      and "\<not> is_separator (last (join_names ms))"
      by (simp_all add: join_names_empty join_names_hd join_names_last)
    from parent_path_snoc [OF this, of n] n
    have "parent_path (join_names ms @ ''/'' @ n) = join_names ms"
      by (simp add: plain_name_nonsep)
    with snoc False show ?thesis by (simp add: join_names_snoc)
  qed
qed

lemma cleanPath_step_normal:
  assumes "normal_path s" and "I \<noteq> []" and "list_all (\<lambda>c. \<not> is_separator c) I"
  shows "normal_path (cleanPath_step s I)"
proof -
  from assms(1) obtain ns where ns: "list_all plain_name ns" and s: "s = join_names ns"
    by (auto simp: normal_path_def)
  consider "I = ''.''" | "I = ''..''" | "I \<noteq> ''.''" "I \<noteq> ''..''" by blast
  then show ?thesis
  proof cases
    case 1
    with assms(1) show ?thesis by (simp add: cleanPath_step_def)
  next
    case 2
    have "take (length (join_names (butlast ns))) (join_names ns) = join_names (butlast ns)"
    proof (cases ns rule: rev_cases)
      case Nil
      then show ?thesis by simp
    next
      case (snoc ms n)
      then show ?thesis by (cases "ms = []") (simp_all add: join_names_snoc)
    qed
    with 2 have "cleanPath_step s I = join_names (butlast ns)"
      by (simp add: cleanPath_step_def s parent_path_join [OF ns])
    moreover from ns have "list_all plain_name (butlast ns)"
      by (auto simp: list_all_iff dest: in_set_butlastD)
    ultimately show ?thesis by (auto simp: normal_path_def)
  next
    case 3
    with assms(2,3) have I: "plain_name I" by (simp add: plain_name_def)
    have "cleanPath_step s I = join_names (ns @ [I])"
    proof (cases "ns = []")
      case True
      with 3 show ?thesis by (simp add: cleanPath_step_def s)
    next
      case False
      with ns have "join_names ns \<noteq> []" by (simp add: join_names_empty)
      with 3 False show ?thesis by (simp add: cleanPath_step_def s join_names_snoc)
    qed
    moreover from ns I have "list_all plain_name (ns @ [I])" by simp
    ultimately show ?thesis unfolding normal_path_def by blast
  qed
qed

lemma foldl_cleanPath_step_normal:
  "normal_path s \<Longrightarrow> \<forall>I\<in>set Is. I \<noteq> [] \<and> list_all (\<lambda>c. \<not> is_separator c) I \<Longrightarrow>
   normal_path (foldl cleanPath_step s Is)"
  by (induction Is arbitrary: s) (simp_all add: cleanPath_step_normal)

lemma filenames_components:
  "list_all (\<lambda>c. \<not> is_separator c) cur \<Longrightarrow>
   \<forall>I\<in>set (filenames cur pending s). I \<noteq> [] \<and> list_all (\<lambda>c. \<not> is_separator c) I"
proof (induction s arbitrary: cur pending)
  case Nil
  then show ?case by (simp add: is_separator_def)
next
  case (Cons a s)
  have e: "list_all (\<lambda>c. \<not> is_separator c) []" by simp
  show ?case
  proof (cases "is_separator a")
    case True
    with Cons.IH [OF e, of True] Cons.prems show ?thesis by simp
  next
    case False
    with Cons.prems have "list_all (\<lambda>c. \<not> is_separator c) (cur @ [a])" by simp
    from Cons.IH [OF this, of False] False show ?thesis by simp
  qed
qed

lemma path_components_relative:
  "\<not> prefix ''/'' p \<Longrightarrow> path_components p = filenames [] False p"
  by (cases p) (simp_all add: path_components_def is_separator_def)

lemma filenames_name:
  "list_all (\<lambda>c. \<not> is_separator c) n \<Longrightarrow>
   filenames cur pending (n @ s) = filenames (cur @ n) (if n = [] then pending else False) s"
  by (induction n arbitrary: cur pending) simp_all

lemma filenames_join:
  "list_all plain_name ns \<Longrightarrow> ns \<noteq> [] \<Longrightarrow> filenames [] pending (join_names ns) = ns"
proof (induction ns arbitrary: pending rule: join_names.induct)
  case 1
  then show ?case by simp
next
  case (2 n)
  then have n: "n \<noteq> []" "list_all (\<lambda>c. \<not> is_separator c) n"
    by (simp_all add: plain_name_def)
  from filenames_name [OF n(2), of "[]" pending "[]"] n(1) show ?case by simp
next
  case (3 n m ns)
  then have n: "n \<noteq> []" "list_all (\<lambda>c. \<not> is_separator c) n"
    by (simp_all add: plain_name_def)
  from 3 have IH: "filenames [] True (join_names (m # ns)) = m # ns" by simp
  from filenames_name [OF n(2), of "[]" pending "''/'' @ join_names (m # ns)"] n(1) IH
  show ?case by (simp add: is_separator_def)
qed

lemma path_components_join:
  assumes "list_all plain_name ns"
  shows "path_components (join_names ns) = ns"
proof (cases "ns = []")
  case True
  then show ?thesis by (simp add: path_components_def)
next
  case False
  with assms have "join_names ns \<noteq> []" and "\<not> is_separator (hd (join_names ns))"
    by (simp_all add: join_names_empty join_names_hd)
  then have "\<not> prefix ''/'' (join_names ns)"
    by (cases "join_names ns") (simp_all add: is_separator_def)
  then have "path_components (join_names ns) = filenames [] False (join_names ns)"
    by (rule path_components_relative)
  with assms False show ?thesis by (simp add: filenames_join)
qed

lemma foldl_cleanPath_step_plain:
  "list_all plain_name ns \<Longrightarrow> list_all plain_name ms \<Longrightarrow>
   foldl cleanPath_step (join_names ms) ns = join_names (ms @ ns)"
proof (induction ns arbitrary: ms)
  case Nil
  then show ?case by simp
next
  case (Cons n ns)
  then have n: "n \<noteq> ''.''" "n \<noteq> ''..''" by (simp_all add: plain_name_def)
  have "cleanPath_step (join_names ms) n = join_names (ms @ [n])"
  proof (cases "ms = []")
    case True
    with n show ?thesis by (simp add: cleanPath_step_def)
  next
    case False
    with Cons.prems have "join_names ms \<noteq> []" by (simp add: join_names_empty)
    with n False show ?thesis by (simp add: cleanPath_step_def join_names_snoc)
  qed
  moreover from Cons.prems have "list_all plain_name (ms @ [n])" by simp
  ultimately show ?case using Cons.IH [of "ms @ [n]"] Cons.prems by simp
qed

lemma cleanPath_normal_fixed:
  assumes "normal_path s"
  shows "cleanPath s = s"
proof -
  from assms obtain ns where ns: "list_all plain_name ns" and s: "s = join_names ns"
    by (auto simp: normal_path_def)
  from foldl_cleanPath_step_plain [OF ns, of "[]"] show ?thesis
    by (simp add: cleanPath_def s path_components_join [OF ns])
qed

lemma cleanPath_relative_normal:
  assumes "\<not> prefix ''/'' p"
  shows "normal_path (cleanPath p)"
proof -
  have "normal_path []" unfolding normal_path_def by (intro exI [of _ "[]"]) simp
  moreover have "\<forall>I\<in>set (filenames [] False p). I \<noteq> [] \<and> list_all (\<lambda>c. \<not> is_separator c) I"
    by (rule filenames_components) simp
  ultimately show ?thesis
    unfolding cleanPath_def path_components_relative [OF assms]
    by (rule foldl_cleanPath_step_normal)
qed

text \<open>
  On a path that does not begin with a separator, \<open>cleanPath\<close> is idempotent:
  its result is a sequence of plain names joined by single separators, and
  such a path is cleaned to itself.
\<close>

theorem cleanPath_relative_idempotent:
  "\<not> prefix ''/'' p \<Longrightarrow> cleanPath (cleanPath p) = cleanPath p"
  by (rule cleanPath_normal_fixed) (rule cleanPath_relative_normal)

theorem cleanPath_relative_idempotent_witness:
  "\<not> prefix ''/'' ''include/../src/./foo.h''
   \<and> cleanPath ''include/../src/./foo.h'' = ''src/foo.h''
   \<and> cleanPath (cleanPath ''include/../src/./foo.h'') = ''src/foo.h''"
proof -
  have r: "\<not> prefix ''/'' ''include/../src/./foo.h''" by simp
  have c: "cleanPath ''include/../src/./foo.h'' = ''src/foo.h''"
    by (simp add: cleanPath_def path_components_def is_separator_def cleanPath_step_def
        parent_path_def parent_path_end_def filename_pos_def root_dir_start_def)
  from cleanPath_relative_idempotent [OF r] r c show ?thesis by simp
qed

subsection \<open>Paths of the examples\<close>

lemma cleanPath_bar_h: "cleanPath ''include/foo/bar.h'' = ''include/foo/bar.h''"
  by (simp add: cleanPath_def path_components_def is_separator_def cleanPath_step_def)

lemma cleanPath_examples:
  "cleanPath ''main.h'' = ''main.h''"
  "cleanPath ''main.cpp'' = ''main.cpp''"
  "cleanPath ''include/foo/./bar.h'' = ''include/foo/bar.h''"
  by (simp_all add: cleanPath_def path_components_def is_separator_def cleanPath_step_def)

lemmas example_defs = example_SM_def bar_h_def example_check_def default_check_def
  default_shouldSuggestEndifComment_def default_shouldFixHeaderGuard_def
  default_shouldSuggestToAddHeaderGuard_def endswith_def BAR_H_def FOO_BAR_H_def

section \<open>The default policy hooks\<close>

text \<open>
  Claim C10. With the default hooks, \<open>shouldSuggestEndifComment\<close> and
  \<open>shouldSuggestToAddHeaderGuard\<close> hold exactly for the paths that end in \<open>.h\<close>
  (so not for \<open>.hpp\<close>, \<open>.hh\<close>, \<open>.hxx\<close> or anything else), and
  \<open>shouldFixHeaderGuard\<close> holds for every path.
\<close>

theorem default_hooks:
  "(default_shouldSuggestEndifComment p \<longleftrightarrow> (\<exists>q. p = q @ ''.h''))
   \<and> (default_shouldSuggestToAddHeaderGuard p \<longleftrightarrow> (\<exists>q. p = q @ ''.h''))
   \<and> default_shouldFixHeaderGuard p"
  by (simp add: default_shouldSuggestEndifComment_def default_shouldSuggestToAddHeaderGuard_def
      default_shouldFixHeaderGuard_def endswith_suffix suffix_def)

theorem default_hooks_witness:
  "default_shouldSuggestEndifComment ''include/foo.h''
   \<and> \<not> default_shouldSuggestToAddHeaderGuard ''include/foo.hpp''
   \<and> \<not> default_shouldSuggestEndifComment ''foo.hh''
   \<and> \<not> default_shouldSuggestToAddHeaderGuard ''foo.hxx''
   \<and> default_shouldFixHeaderGuard ''foo.hpp''"
  using default_hooks [of "''include/foo.h''"] default_hooks [of "''include/foo.hpp''"]
    default_hooks [of "''foo.hh''"] default_hooks [of "''foo.hxx''"] default_hooks [of "''foo.hpp''"]
  by (simp add: append_eq_conv_conj)

section \<open>The naming check\<close>

text \<open>
  Claim C3. With \<open>current\<close> the spelling of the guard macro and the canonical name
  \<open>getHeaderGuard Check FileName current\<close>: \<open>checkHeaderGuardDefinition\<close> emits a
  diagnostic exactly when the location of the \<open>#ifndef\<close> name is valid and
  \<open>current\<close> is neither the canonical name nor the canonical name followed by one
  underscore. The diagnostic then carries exactly two replacements, of the name
  token of the \<open>#ifndef\<close> and of the name token of the \<open>#define\<close>, each by the
  canonical name, and the canonical name is returned; otherwise nothing is
  emitted and \<open>current\<close> is returned unchanged.
\<close>

theorem naming_check:
  "(snd (checkHeaderGuardDefinition Check IfndefLoc Define FileName current) \<noteq> []
      \<longleftrightarrow> isValid IfndefLoc
          \<and> current \<noteq> getHeaderGuard Check FileName current
          \<and> current \<noteq> getHeaderGuard Check FileName current @ ''_'')
   \<and> (snd (checkHeaderGuardDefinition Check IfndefLoc Define FileName current) \<noteq> []
      \<longrightarrow> checkHeaderGuardDefinition Check IfndefLoc Define FileName current =
            (getHeaderGuard Check FileName current,
             [Diagnostic IfndefLoc ''header guard does not follow preferred style''
                [CreateReplacement
                   (getTokenRange IfndefLoc (getLocWithOffset IfndefLoc (length current)))
                   (getHeaderGuard Check FileName current),
                 CreateReplacement
                   (getTokenRange Define (getLocWithOffset Define (length current)))
                   (getHeaderGuard Check FileName current)]]))
   \<and> (snd (checkHeaderGuardDefinition Check IfndefLoc Define FileName current) = []
      \<longrightarrow> fst (checkHeaderGuardDefinition Check IfndefLoc Define FileName current) = current)"
  by (simp add: checkHeaderGuardDefinition_def Let_def)

theorem naming_check_witness:
  "checkHeaderGuardDefinition (default_check (\<lambda>f old. ''FOO_BAR_H'')) 8 20
       ''include/foo/bar.h'' ''BAR_H'' =
     (''FOO_BAR_H'',
      [Diagnostic 8 ''header guard does not follow preferred style''
         [CreateReplacement (getTokenRange 8 13) ''FOO_BAR_H'',
          CreateReplacement (getTokenRange 20 25) ''FOO_BAR_H'']])
   \<and> checkHeaderGuardDefinition (default_check (\<lambda>f old. ''FOO_BAR_H'')) 8 20
       ''include/foo/bar.h'' ''FOO_BAR_H_'' = (''FOO_BAR_H_'', [])"
proof -
  let ?chk = "default_check (\<lambda>f old. ''FOO_BAR_H'')"
  have g: "getHeaderGuard ?chk = (\<lambda>f old. ''FOO_BAR_H'')" by (simp add: default_check_def)
  have v: "isValid (8 :: 32 word)" by (simp add: isValid_def)
  have o1: "getLocWithOffset 8 (length ''BAR_H'') = 13" by (simp add: getLocWithOffset_def)
  have o2: "getLocWithOffset 20 (length ''BAR_H'') = 25" by (simp add: getLocWithOffset_def)
  from naming_check [of ?chk 8 20 "''include/foo/bar.h''" "''BAR_H''"]
  have a: "checkHeaderGuardDefinition ?chk 8 20 ''include/foo/bar.h'' ''BAR_H'' =
     (''FOO_BAR_H'',
      [Diagnostic 8 ''header guard does not follow preferred style''
         [CreateReplacement (getTokenRange 8 13) ''FOO_BAR_H'',
          CreateReplacement (getTokenRange 20 25) ''FOO_BAR_H'']])"
    unfolding g o1 o2 using v by simp
  from naming_check [of ?chk 8 20 "''include/foo/bar.h''" "''FOO_BAR_H_''"]
  have b: "checkHeaderGuardDefinition ?chk 8 20 ''include/foo/bar.h'' ''FOO_BAR_H_'' = (''FOO_BAR_H_'', [])"
    unfolding g by (simp add: prod_eq_iff)
  from a b show ?thesis by simp
qed

section \<open>One round of the loop over the recorded macros\<close>

lemma map_subscript_twice:
  "fst (map_subscript (snd (map_subscript m d k)) d k) = fst (map_subscript m d k)"
  "snd (map_subscript (snd (map_subscript m d k)) d k) = snd (map_subscript m d k)"
  by (simp_all add: map_subscript_def split: option.splits)

lemma checkMacroEntry_skip:
  "\<not> isUsedForHeaderGuard (getMacroInfo (snd e)) \<Longrightarrow> checkMacroEntry SM Check e acc = Inr acc"
  by (simp add: checkMacroEntry_def Let_def)

lemma checkMacroEntry_null:
  "isUsedForHeaderGuard (getMacroInfo (snd e)) \<Longrightarrow>
   getFileEntryForID SM (getFileID SM (getDefinitionLoc (getMacroInfo (snd e)))) = None \<Longrightarrow>
   checkMacroEntry SM Check e acc = Inl NullFileEntry"
  by (simp add: checkMacroEntry_def Let_def)

lemma checkMacroEntry_nofix:
  "isUsedForHeaderGuard (getMacroInfo (snd e)) \<Longrightarrow>
   getFileEntryForID SM (getFileID SM (getDefinitionLoc (getMacroInfo (snd e)))) = Some FE \<Longrightarrow>
   \<not> shouldFixHeaderGuard Check (cleanPath (FE_getName FE)) \<Longrightarrow>
   checkMacroEntry SM Check e acc =
     Inr ((fst acc)\<lparr> Files := StringMap_erase (cleanPath (FE_getName FE)) (Files (fst acc)) \<rparr>, snd acc)"
  by (simp add: checkMacroEntry_def Let_def)

lemma checkMacroEntry_fix:
  assumes "isUsedForHeaderGuard (getMacroInfo (snd e))"
    and "getFileEntryForID SM (getFileID SM (getDefinitionLoc (getMacroInfo (snd e)))) = Some FE"
    and "shouldFixHeaderGuard Check (cleanPath (FE_getName FE))"
  shows "checkMacroEntry SM Check e acc =
     Inr ((fst acc)\<lparr> Files := StringMap_erase (cleanPath (FE_getName FE)) (Files (fst acc)),
             Ifndefs := snd (map_subscript (Ifndefs (fst acc)) (0, 0) (getIdentifierInfo (fst e))),
             EndIfs := snd (map_subscript (EndIfs (fst acc)) 0
                (fst (fst (map_subscript (Ifndefs (fst acc)) (0, 0) (getIdentifierInfo (fst e)))))) \<rparr>,
          snd acc
          @ snd (checkHeaderGuardDefinition Check
                  (snd (fst (map_subscript (Ifndefs (fst acc)) (0, 0) (getIdentifierInfo (fst e)))))
                  (getLocation (fst e)) (cleanPath (FE_getName FE))
                  (II_getName (getIdentifierInfo (fst e))))
          @ (if shouldSuggestEndifComment Check (cleanPath (FE_getName FE))
             then checkEndifComment SM
                    (fst (map_subscript (EndIfs (fst acc)) 0
                       (fst (fst (map_subscript (Ifndefs (fst acc)) (0, 0) (getIdentifierInfo (fst e)))))))
                    (fst (checkHeaderGuardDefinition Check
                      (snd (fst (map_subscript (Ifndefs (fst acc)) (0, 0) (getIdentifierInfo (fst e)))))
                      (getLocation (fst e)) (cleanPath (FE_getName FE))
                      (II_getName (getIdentifierInfo (fst e)))))
             else []))"
  using assms
  by (simp add: checkMacroEntry_def Let_def split_beta map_subscript_twice)

section \<open>The endif comment check\<close>

lemma checkEndifComment_eq:
  "checkEndifComment SM EndIf N =
     (if isValid EndIf
         \<and> \<not> suffix (''// '' @ N) (rest_of_line (getCharacterData SM EndIf))
         \<and> \<not> suffix (''/* '' @ N @ '' */'') (rest_of_line (getCharacterData SM EndIf))
      then [Diagnostic EndIf
              ''#endif for a header guard should reference the guard macro in a comment''
              [CreateReplacement
                 (getCharRange EndIf
                    (getLocWithOffset EndIf (length (rest_of_line (getCharacterData SM EndIf)))))
                 (''endif  // '' @ N)]]
      else [])"
  unfolding checkEndifComment_def Let_def take_strcspn endswith_suffix
  by (simp add: strcspn_length)

text \<open>
  Claim C4. \<open>checkEndifComment\<close> emits a diagnostic exactly when the location of
  the \<open>#endif\<close> is valid and the text from that location to the end of its line
  ends with neither \<open>// N\<close> nor \<open>/* N */\<close>; its single edit replaces that text by
  \<open>endif  // N\<close>. In a round of the loop for a header guard that is to be fixed,
  the check is run only when \<open>shouldSuggestEndifComment\<close> accepts the path, and \<open>N\<close>
  is the name that the naming check returned: the corrected name when the naming
  check emitted its diagnostic.
\<close>

theorem endif_comment_check:
  "(checkEndifComment SM EndIf N \<noteq> []
      \<longleftrightarrow> isValid EndIf
          \<and> \<not> suffix (''// '' @ N) (rest_of_line (getCharacterData SM EndIf))
          \<and> \<not> suffix (''/* '' @ N @ '' */'') (rest_of_line (getCharacterData SM EndIf)))
   \<and> (checkEndifComment SM EndIf N \<noteq> []
      \<longrightarrow> checkEndifComment SM EndIf N =
            [Diagnostic EndIf
               ''#endif for a header guard should reference the guard macro in a comment''
               [CreateReplacement
                  (getCharRange EndIf
                     (getLocWithOffset EndIf (length (rest_of_line (getCharacterData SM EndIf)))))
                  (''endif  // '' @ N)]])
   \<and> (isUsedForHeaderGuard (getMacroInfo md)
       \<and> getFileEntryForID SM (getFileID SM (getDefinitionLoc (getMacroInfo md))) = Some FE
       \<and> shouldFixHeaderGuard Check (cleanPath (FE_getName FE))
      \<longrightarrow> (\<exists>st'. checkMacroEntry SM Check (tok, md) (st, diags) =
            Inr (st',
                 diags
                 @ snd (checkHeaderGuardDefinition Check
                          (snd (lookupIfndef st (getIdentifierInfo tok))) (getLocation tok)
                          (cleanPath (FE_getName FE)) (II_getName (getIdentifierInfo tok)))
                 @ (if shouldSuggestEndifComment Check (cleanPath (FE_getName FE))
                    then checkEndifComment SM
                           (lookupEndIf st (fst (lookupIfndef st (getIdentifierInfo tok))))
                           (fst (checkHeaderGuardDefinition Check
                                   (snd (lookupIfndef st (getIdentifierInfo tok))) (getLocation tok)
                                   (cleanPath (FE_getName FE))
                                   (II_getName (getIdentifierInfo tok))))
                    else []))))"
  (is "?emitted \<and> ?edit \<and> (?guard \<longrightarrow> ?entry)")
proof (intro conjI)
  show ?emitted by (simp add: checkEndifComment_eq)
  show ?edit by (simp add: checkEndifComment_eq)
  show "?guard \<longrightarrow> ?entry"
  proof (rule impI)
    assume g: ?guard
    then have g1: "isUsedForHeaderGuard (getMacroInfo (snd (tok, md)))"
      and g2: "getFileEntryForID SM (getFileID SM (getDefinitionLoc (getMacroInfo (snd (tok, md))))) = Some FE"
      and g3: "shouldFixHeaderGuard Check (cleanPath (FE_getName FE))"
      by simp_all
    show ?entry
      unfolding checkMacroEntry_fix [OF g1 g2 g3] by simp
  qed
qed

theorem endif_comment_check_witness:
  "checkEndifComment (example_SM (\<lambda>FID. Some bar_h) 1 (''endif'' @ [CHR 0x0A] @ ''int x;''))
       60 ''FOO_BAR_H''
     = [Diagnostic 60 ''#endif for a header guard should reference the guard macro in a comment''
          [CreateReplacement (getCharRange 60 65) ''endif  // FOO_BAR_H'']]
   \<and> checkEndifComment (example_SM (\<lambda>FID. Some bar_h) 1 (''endif // FOO_BAR_H'' @ [CHR 0x0A]))
       60 ''FOO_BAR_H'' = []
   \<and> (\<exists>st'. checkMacroEntry
         (example_SM (\<lambda>FID. Some bar_h) 1 (''endif // BAR_H'' @ [CHR 0x0A])) example_check BAR_H
         (\<lparr> Macros = [BAR_H], Files = [(''include/foo/bar.h'', bar_h)],
            Ifndefs = [IdentifierInfo ''BAR_H'' \<mapsto> (5, 8)], EndIfs = [5 \<mapsto> 60] \<rparr>, [])
       = Inr (st',
          [Diagnostic 8 ''header guard does not follow preferred style''
             [CreateReplacement (getTokenRange 8 13) ''FOO_BAR_H'',
              CreateReplacement (getTokenRange 20 25) ''FOO_BAR_H''],
           Diagnostic 60
             ''#endif for a header guard should reference the guard macro in a comment''
             [CreateReplacement (getCharRange 60 74) ''endif  // FOO_BAR_H'']]))"
proof -
  let ?SM1 = "example_SM (\<lambda>FID. Some bar_h) 1 (''endif'' @ [CHR 0x0A] @ ''int x;'')"
  let ?SM2 = "example_SM (\<lambda>FID. Some bar_h) 1 (''endif // FOO_BAR_H'' @ [CHR 0x0A])"
  let ?SM3 = "example_SM (\<lambda>FID. Some bar_h) 1 (''endif // BAR_H'' @ [CHR 0x0A])"
  let ?st = "\<lparr> Macros = [BAR_H], Files = [(''include/foo/bar.h'', bar_h)],
            Ifndefs = [IdentifierInfo ''BAR_H'' \<mapsto> (5, 8)], EndIfs = [5 \<mapsto> 60] \<rparr>"
  have v: "isValid (60 :: 32 word)" by (simp add: isValid_def)
  from endif_comment_check [of ?SM1 60 "''FOO_BAR_H''"]
  have a: "checkEndifComment ?SM1 60 ''FOO_BAR_H''
     = [Diagnostic 60 ''#endif for a header guard should reference the guard macro in a comment''
          [CreateReplacement (getCharRange 60 65) ''endif  // FOO_BAR_H'']]"
    using v by (simp add: example_SM_def suffix_to_prefix getLocWithOffset_def)
  from endif_comment_check [of ?SM2 60 "''FOO_BAR_H''"]
  have b: "checkEndifComment ?SM2 60 ''FOO_BAR_H'' = []"
    by (simp add: example_SM_def suffix_to_prefix)
  have g: "isUsedForHeaderGuard (getMacroInfo (snd BAR_H))
       \<and> getFileEntryForID ?SM3 (getFileID ?SM3 (getDefinitionLoc (getMacroInfo (snd BAR_H)))) = Some bar_h
       \<and> shouldFixHeaderGuard example_check (cleanPath (FE_getName bar_h))"
    by (simp add: example_defs)
  from endif_comment_check [of ?SM3 _ _ "snd BAR_H" bar_h example_check "fst BAR_H" ?st "[]"] g
  have c: "\<exists>st'. checkMacroEntry ?SM3 example_check BAR_H (?st, [])
       = Inr (st',
          [Diagnostic 8 ''header guard does not follow preferred style''
             [CreateReplacement (getTokenRange 8 13) ''FOO_BAR_H'',
              CreateReplacement (getTokenRange 20 25) ''FOO_BAR_H''],
           Diagnostic 60
             ''#endif for a header guard should reference the guard macro in a comment''
             [CreateReplacement (getCharRange 60 74) ''endif  // FOO_BAR_H'']])"
    by (simp add: example_defs cleanPath_bar_h map_subscript_def checkHeaderGuardDefinition_def
        checkEndifComment_def strcspn_def isValid_def getLocWithOffset_def Let_def)
  from a b c show ?thesis by simp
qed

section \<open>Lookups that miss\<close>

text \<open>
  What \<open>operator[]\<close> inserts on a miss is the value it returns for a missing key,
  so no round of the loop changes what a later lookup returns.
\<close>

lemma map_subscript_lookup_stable:
  "fst (map_subscript (snd (map_subscript m d k)) d k') = fst (map_subscript m d k')"
  by (simp add: map_subscript_def split: option.splits)

lemma checkMacroEntry_lookups:
  assumes "checkMacroEntry SM Check e acc = Inr acc'"
  shows "lookupIfndef (fst acc') II = lookupIfndef (fst acc) II
    \<and> lookupEndIf (fst acc') IfLoc = lookupEndIf (fst acc) IfLoc"
proof (cases "isUsedForHeaderGuard (getMacroInfo (snd e))")
  case False
  with assms show ?thesis by (simp add: checkMacroEntry_skip)
next
  case guard: True
  show ?thesis
  proof (cases "getFileEntryForID SM (getFileID SM (getDefinitionLoc (getMacroInfo (snd e))))")
    case None
    with guard assms show ?thesis by (simp add: checkMacroEntry_null)
  next
    case (Some FE)
    show ?thesis
    proof (cases "shouldFixHeaderGuard Check (cleanPath (FE_getName FE))")
      case False
      from assms show ?thesis
        unfolding checkMacroEntry_nofix [OF guard Some False] by auto
    next
      case True
      from assms show ?thesis
        unfolding checkMacroEntry_fix [OF guard Some True]
        by (auto simp: map_subscript_lookup_stable)
    qed
  qed
qed

lemma checkMacros_lookups:
  "checkMacros SM Check ms acc = Inr acc' \<Longrightarrow>
   lookupIfndef (fst acc') II = lookupIfndef (fst acc) II
    \<and> lookupEndIf (fst acc') IfLoc = lookupEndIf (fst acc) IfLoc"
proof (induction ms arbitrary: acc)
  case Nil
  then show ?case by simp
next
  case (Cons e ms)
  from Cons.prems obtain mid where e: "checkMacroEntry SM Check e acc = Inr mid"
    and rest: "checkMacros SM Check ms mid = Inr acc'"
    by (auto split: sum.splits)
  from Cons.IH [OF rest] checkMacroEntry_lookups [OF e, of II IfLoc] show ?case by simp
qed

lemma checkMacros_append:
  "checkMacros SM Check (xs @ ys) acc =
     (case checkMacros SM Check xs acc of
        Inl e \<Rightarrow> Inl e
      | Inr acc' \<Rightarrow> checkMacros SM Check ys acc')"
  by (induction xs arbitrary: acc) (simp_all split: sum.splits)

text \<open>
  Claim C5, amended. Take any round of the loop of \<open>EndOfMainFile\<close>, reached from
  the recorded state after the rounds of the earlier entries, for a header guard
  whose file entry resolves. When the callbacks recorded no \<open>#ifndef\<close> for the
  identifier and no \<open>#endif\<close> under the invalid location 0 (the key that is then
  looked up), the round emits nothing. When an \<open>#ifndef\<close> is recorded but no
  \<open>#endif\<close> for its directive location, the endif comment check emits nothing,
  while the naming check still runs against the recorded name location. In both
  cases the loop goes on with the remaining entries.
\<close>

theorem lookup_miss:
  assumes reach: "checkMacros SM Check pre (st0, diags0) = Inr (st, diags)"
    and guard: "isUsedForHeaderGuard (getMacroInfo md)"
    and fe: "getFileEntryForID SM (getFileID SM (getDefinitionLoc (getMacroInfo md))) = Some FE"
  shows
  "(Ifndefs st0 (getIdentifierInfo tok) = None \<and> EndIfs st0 0 = None
      \<longrightarrow> (\<exists>st'. checkMacroEntry SM Check (tok, md) (st, diags) = Inr (st', diags)
              \<and> checkMacros SM Check (pre @ (tok, md) # rest) (st0, diags0) =
                  checkMacros SM Check rest (st', diags)))
   \<and> (\<forall>IfLoc NameLoc.
        Ifndefs st0 (getIdentifierInfo tok) = Some (IfLoc, NameLoc) \<and> EndIfs st0 IfLoc = None
      \<longrightarrow> (\<exists>st' diags'.
              diags' = diags
                 @ (if shouldFixHeaderGuard Check (cleanPath (FE_getName FE))
                    then snd (checkHeaderGuardDefinition Check NameLoc (getLocation tok)
                                (cleanPath (FE_getName FE)) (II_getName (getIdentifierInfo tok)))
                    else [])
              \<and> checkMacroEntry SM Check (tok, md) (st, diags) = Inr (st', diags')
              \<and> checkMacros SM Check (pre @ (tok, md) # rest) (st0, diags0) =
                  checkMacros SM Check rest (st', diags')))"
proof -
  have g1: "isUsedForHeaderGuard (getMacroInfo (snd (tok, md)))"
    and g2: "getFileEntryForID SM (getFileID SM (getDefinitionLoc (getMacroInfo (snd (tok, md))))) = Some FE"
    using guard fe by simp_all
  have loop: "checkMacros SM Check (pre @ (tok, md) # rest) (st0, diags0) =
      (case checkMacroEntry SM Check (tok, md) (st, diags) of
         Inl e \<Rightarrow> Inl e
       | Inr acc' \<Rightarrow> checkMacros SM Check rest acc')"
    by (simp add: checkMacros_append reach)
  from checkMacros_lookups [OF reach]
  have ifn: "lookupIfndef st II = lookupIfndef st0 II"
    and eif: "lookupEndIf st IfLoc = lookupEndIf st0 IfLoc" for II IfLoc
    by simp_all
  have miss_ifn: "Ifndefs st0 II = None \<Longrightarrow> lookupIfndef st II = (0, 0)" for II
    unfolding ifn by (simp add: map_subscript_def)
  have hit_ifn: "Ifndefs st0 II = Some p \<Longrightarrow> lookupIfndef st II = p" for II p
    unfolding ifn by (simp add: map_subscript_def)
  have miss_eif: "EndIfs st0 IfLoc = None \<Longrightarrow> lookupEndIf st IfLoc = 0" for IfLoc
    unfolding eif by (simp add: map_subscript_def)
  show ?thesis
  proof (cases "shouldFixHeaderGuard Check (cleanPath (FE_getName FE))")
    case False
    show ?thesis
      by (simp add: loop checkMacroEntry_nofix [OF g1 g2 False] False)
  next
    case True
    have none: "checkEndifComment SM 0 N = []" for N
      by (simp add: checkEndifComment_def isValid_def Let_def)
    have inv: "snd (checkHeaderGuardDefinition Check 0 D F C) = []" for D F C
      by (simp add: checkHeaderGuardDefinition_def isValid_def Let_def)
    show ?thesis
      by (auto simp: loop checkMacroEntry_fix [OF g1 g2 True] True miss_ifn hit_ifn miss_eif
          none inv)
  qed
qed

theorem lookup_miss_witness:
  "(\<exists>st'. checkMacros (example_SM (\<lambda>FID. Some bar_h) 1 ''endif'') example_check [BAR_H, BAZ_H]
         (\<lparr> Macros = [BAR_H, BAZ_H], Files = [], Ifndefs = Map.empty, EndIfs = Map.empty \<rparr>, [])
       = Inr (st', []))
   \<and> (\<exists>st'. checkMacros (example_SM (\<lambda>FID. Some bar_h) 1 ''endif'') example_check [BAZ_H, BAR_H]
         (\<lparr> Macros = [BAZ_H, BAR_H], Files = [],
            Ifndefs = [IdentifierInfo ''BAR_H'' \<mapsto> (5, 8)], EndIfs = Map.empty \<rparr>, [])
       = Inr (st',
           [Diagnostic 8 ''header guard does not follow preferred style''
              [CreateReplacement (getTokenRange 8 13) ''FOO_BAR_H'',
               CreateReplacement (getTokenRange 20 25) ''FOO_BAR_H'']]))"
proof -
  let ?SM = "example_SM (\<lambda>FID. Some bar_h) 1 ''endif''"
  let ?sta = "\<lparr> Macros = [BAR_H, BAZ_H], Files = [], Ifndefs = Map.empty, EndIfs = Map.empty \<rparr>"
  let ?stb = "\<lparr> Macros = [BAZ_H, BAR_H], Files = [],
            Ifndefs = [IdentifierInfo ''BAR_H'' \<mapsto> (5, 8)], EndIfs = Map.empty \<rparr>"
  have gBAR: "isUsedForHeaderGuard (getMacroInfo (snd BAR_H))"
    and gBAZ: "isUsedForHeaderGuard (getMacroInfo (snd BAZ_H))"
    by (simp_all add: BAR_H_def BAZ_H_def)
  have fBAR: "getFileEntryForID ?SM (getFileID ?SM (getDefinitionLoc (getMacroInfo (snd BAR_H))))
      = Some bar_h"
    and fBAZ: "getFileEntryForID ?SM (getFileID ?SM (getDefinitionLoc (getMacroInfo (snd BAZ_H))))
      = Some bar_h"
    by (simp_all add: example_defs BAZ_H_def)
  have "\<exists>st. checkMacros ?SM example_check [BAR_H] (?sta, []) = Inr (st, [])"
    by (simp add: checkMacroEntry_def map_subscript_def checkHeaderGuardDefinition_def
        checkEndifComment_def isValid_def cleanPath_bar_h Let_def example_defs)
  then obtain sta where ra: "checkMacros ?SM example_check [BAR_H] (?sta, []) = Inr (sta, [])" ..
  from lookup_miss [OF ra gBAZ fBAZ, of "fst BAZ_H" "[]", THEN conjunct1]
  have a: "\<exists>st'. checkMacros ?SM example_check [BAR_H, BAZ_H] (?sta, []) = Inr (st', [])"
    by (auto simp: BAZ_H_def)
  have "\<exists>st. checkMacros ?SM example_check [BAZ_H] (?stb, []) = Inr (st, [])"
    by (simp add: checkMacroEntry_def map_subscript_def checkHeaderGuardDefinition_def
        checkEndifComment_def isValid_def cleanPath_bar_h Let_def example_defs BAZ_H_def)
  then obtain stb where rb: "checkMacros ?SM example_check [BAZ_H] (?stb, []) = Inr (stb, [])" ..
  from lookup_miss [OF rb gBAR fBAR, of "fst BAR_H" "[]", THEN conjunct2, THEN spec, THEN spec,
      of 5 8]
  have b: "\<exists>st'. checkMacros ?SM example_check [BAZ_H, BAR_H] (?stb, [])
       = Inr (st',
           [Diagnostic 8 ''header guard does not follow preferred style''
              [CreateReplacement (getTokenRange 8 13) ''FOO_BAR_H'',
               CreateReplacement (getTokenRange 20 25) ''FOO_BAR_H'']])"
    by (auto simp: example_defs cleanPath_bar_h checkHeaderGuardDefinition_def isValid_def
        getLocWithOffset_def Let_def)
  from a b show ?thesis by simp
qed

text \<open>
  Claim C5 as stated fails, in two ways. \<open>BAR_H\<close> guards its header and is tested
  again by a later \<open>#ifndef\<close> that is never closed: the later \<open>#ifndef\<close> is the
  one on record, no \<open>#endif\<close> is recorded for it, and the naming check still emits
  its diagnostic with both replacements. And when no \<open>#ifndef\<close> is recorded for
  \<open>BAR_H\<close> but the \<open>Endif\<close> callback was called with the invalid location for its
  \<open>#if\<close>, the endif comment check runs on the \<open>#endif\<close> recorded there.
\<close>

theorem endif_miss_counterexample:
  "run_unit (example_SM (\<lambda>FID. Some bar_h) 1 ''endif'') example_check
      [EvFileChanged 1 EnterFile C_User 0,
       EvIfndef 5 (Token (IdentifierInfo ''BAR_H'') 8) None,
       EvMacroDefined (fst BAR_H) (snd BAR_H),
       EvEndif 60 5,
       EvIfndef 150 (Token (IdentifierInfo ''BAR_H'') 158) None]
     = Inr (initial_state,
         [Diagnostic 158 ''header guard does not follow preferred style''
            [CreateReplacement (getTokenRange 158 163) ''FOO_BAR_H'',
             CreateReplacement (getTokenRange 20 25) ''FOO_BAR_H'']])
   \<and> Ifndefs (record_events (example_SM (\<lambda>FID. Some bar_h) 1 ''endif'')
        [EvFileChanged 1 EnterFile C_User 0,
         EvIfndef 5 (Token (IdentifierInfo ''BAR_H'') 8) None,
         EvMacroDefined (fst BAR_H) (snd BAR_H),
         EvEndif 60 5,
         EvIfndef 150 (Token (IdentifierInfo ''BAR_H'') 158) None]) (IdentifierInfo ''BAR_H'')
       = Some (150, 158)
   \<and> EndIfs (record_events (example_SM (\<lambda>FID. Some bar_h) 1 ''endif'')
        [EvFileChanged 1 EnterFile C_User 0,
         EvIfndef 5 (Token (IdentifierInfo ''BAR_H'') 8) None,
         EvMacroDefined (fst BAR_H) (snd BAR_H),
         EvEndif 60 5,
         EvIfndef 150 (Token (IdentifierInfo ''BAR_H'') 158) None]) 150 = None
   \<and> run_unit (example_SM (\<lambda>FID. Some bar_h) 1 ''endif'') example_check
      [EvFileChanged 1 EnterFile C_User 0,
       EvMacroDefined (fst BAR_H) (snd BAR_H),
       EvEndif 60 0]
     = Inr (initial_state,
         [Diagnostic 60
            ''#endif for a header guard should reference the guard macro in a comment''
            [CreateReplacement (getCharRange 60 65) ''endif  // BAR_H'']])
   \<and> Ifndefs (record_events (example_SM (\<lambda>FID. Some bar_h) 1 ''endif'')
        [EvFileChanged 1 EnterFile C_User 0,
         EvMacroDefined (fst BAR_H) (snd BAR_H),
         EvEndif 60 0]) (IdentifierInfo ''BAR_H'') = None"
  by (simp add: run_unit_def record_events_def FileChanged_def Ifndef_def MacroDefined_def
      Endif_def EndOfMainFile_def checkMacroEntry_def checkGuardlessHeaders_def
      StringMap_erase_def map_subscript_def checkHeaderGuardDefinition_def
      checkEndifComment_def strcspn_def endswith_def isValid_def getLocWithOffset_def
      initial_state_def cleanPath_bar_h Let_def example_defs)

section \<open>A header guard takes its file off the pending files\<close>

lemma checkMacroEntry_frame:
  assumes "checkMacroEntry SM Check e acc = Inr acc'"
  shows "Macros (fst acc') = Macros (fst acc)
    \<and> (\<exists>keep. Files (fst acc') = filter keep (Files (fst acc)))
    \<and> (\<exists>new. snd acc' = snd acc @ new)"
proof (cases "isUsedForHeaderGuard (getMacroInfo (snd e))")
  case False
  with assms have "acc' = acc" by (simp add: checkMacroEntry_skip)
  moreover have "Files (fst acc) = filter (\<lambda>p. True) (Files (fst acc))" by simp
  ultimately show ?thesis by (metis append_Nil2)
next
  case guard: True
  show ?thesis
  proof (cases "getFileEntryForID SM (getFileID SM (getDefinitionLoc (getMacroInfo (snd e))))")
    case None
    with guard assms show ?thesis by (simp add: checkMacroEntry_null)
  next
    case (Some FE)
    show ?thesis
    proof (cases "shouldFixHeaderGuard Check (cleanPath (FE_getName FE))")
      case False
      from assms have "acc' = ((fst acc)\<lparr> Files := StringMap_erase (cleanPath (FE_getName FE)) (Files (fst acc)) \<rparr>, snd acc)"
        unfolding checkMacroEntry_nofix [OF guard Some False] by simp
      then show ?thesis by (auto simp: StringMap_erase_def)
    next
      case True
      from assms show ?thesis
        unfolding checkMacroEntry_fix [OF guard Some True]
        by (auto simp: StringMap_erase_def)
    qed
  qed
qed

lemma checkMacroEntry_erases:
  assumes "checkMacroEntry SM Check e acc = Inr acc'"
    and "isUsedForHeaderGuard (getMacroInfo (snd e))"
    and "getFileEntryForID SM (getFileID SM (getDefinitionLoc (getMacroInfo (snd e)))) = Some FE"
  shows "cleanPath (FE_getName FE) \<notin> fst ` set (Files (fst acc'))"
proof (cases "shouldFixHeaderGuard Check (cleanPath (FE_getName FE))")
  case False
  from assms(1) show ?thesis
    unfolding checkMacroEntry_nofix [OF assms(2,3) False]
    by (auto simp: StringMap_erase_def)
next
  case True
  from assms(1) show ?thesis
    unfolding checkMacroEntry_fix [OF assms(2,3) True]
    by (auto simp: StringMap_erase_def)
qed

lemma checkMacros_frame:
  "checkMacros SM Check ms acc = Inr acc' \<Longrightarrow>
     Macros (fst acc') = Macros (fst acc)
     \<and> (\<exists>keep. Files (fst acc') = filter keep (Files (fst acc)))
     \<and> (\<exists>new. snd acc' = snd acc @ new)"
proof (induction ms arbitrary: acc)
  case Nil
  then have "acc' = acc" by simp
  moreover have "Files (fst acc) = filter (\<lambda>p. True) (Files (fst acc))" by simp
  ultimately show ?case by (metis append_Nil2)
next
  case (Cons e ms)
  then obtain mid where e: "checkMacroEntry SM Check e acc = Inr mid"
    and rest: "checkMacros SM Check ms mid = Inr acc'"
    by (auto split: sum.splits)
  from checkMacroEntry_frame [OF e] Cons.IH [OF rest] show ?case
    by (metis (no_types, lifting) append.assoc filter_filter)
qed

lemma checkMacros_erases:
  "checkMacros SM Check ms acc = Inr acc' \<Longrightarrow> e \<in> set ms \<Longrightarrow>
   isUsedForHeaderGuard (getMacroInfo (snd e)) \<Longrightarrow>
   getFileEntryForID SM (getFileID SM (getDefinitionLoc (getMacroInfo (snd e)))) = Some FE \<Longrightarrow>
   cleanPath (FE_getName FE) \<notin> fst ` set (Files (fst acc'))"
proof (induction ms arbitrary: acc)
  case Nil
  then show ?case by simp
next
  case (Cons x ms)
  from Cons.prems(1) obtain mid where x: "checkMacroEntry SM Check x acc = Inr mid"
    and rest: "checkMacros SM Check ms mid = Inr acc'"
    by (auto split: sum.splits)
  show ?case
  proof (cases "e = x")
    case True
    with x Cons.prems have "cleanPath (FE_getName FE) \<notin> fst ` set (Files (fst mid))"
      using checkMacroEntry_erases by blast
    moreover from checkMacros_frame [OF rest]
    have "set (Files (fst acc')) \<subseteq> set (Files (fst mid))" by auto
    ultimately show ?thesis by blast
  next
    case False
    with Cons.prems have "e \<in> set ms" by simp
    from Cons.IH [OF rest this Cons.prems(3,4)] show ?thesis .
  qed
qed

lemma naming_messages:
  "d \<in> set (snd (checkHeaderGuardDefinition Check IfndefLoc Define FileName current)) \<Longrightarrow>
   diagMessage d = ''header guard does not follow preferred style''"
  by (auto simp: checkHeaderGuardDefinition_def Let_def split: if_splits)

lemma endif_messages:
  "d \<in> set (checkEndifComment SM EndIf N) \<Longrightarrow>
   diagMessage d = ''#endif for a header guard should reference the guard macro in a comment''"
  by (auto simp: checkEndifComment_def Let_def split: if_splits)

lemma checkMacroEntry_messages:
  assumes "checkMacroEntry SM Check e acc = Inr acc'"
    and "d \<in> set (snd acc')"
  shows "d \<in> set (snd acc)
    \<or> diagMessage d = ''header guard does not follow preferred style''
    \<or> diagMessage d = ''#endif for a header guard should reference the guard macro in a comment''"
proof (cases "isUsedForHeaderGuard (getMacroInfo (snd e))")
  case False
  with assms show ?thesis by (simp add: checkMacroEntry_skip)
next
  case guard: True
  show ?thesis
  proof (cases "getFileEntryForID SM (getFileID SM (getDefinitionLoc (getMacroInfo (snd e))))")
    case None
    with guard assms show ?thesis by (simp add: checkMacroEntry_null)
  next
    case (Some FE)
    show ?thesis
    proof (cases "shouldFixHeaderGuard Check (cleanPath (FE_getName FE))")
      case False
      from assms show ?thesis
        unfolding checkMacroEntry_nofix [OF guard Some False] by auto
    next
      case True
      from assms show ?thesis
        unfolding checkMacroEntry_fix [OF guard Some True]
        by (auto dest: naming_messages endif_messages split: if_splits)
    qed
  qed
qed

lemma checkMacros_messages:
  "checkMacros SM Check ms acc = Inr acc' \<Longrightarrow> d \<in> set (snd acc') \<Longrightarrow>
   d \<in> set (snd acc)
    \<or> diagMessage d = ''header guard does not follow preferred style''
    \<or> diagMessage d = ''#endif for a header guard should reference the guard macro in a comment''"
proof (induction ms arbitrary: acc)
  case Nil
  then show ?case by simp
next
  case (Cons e ms)
  from Cons.prems(1) obtain mid where e: "checkMacroEntry SM Check e acc = Inr mid"
    and rest: "checkMacros SM Check ms mid = Inr acc'"
    by (auto split: sum.splits)
  from Cons.IH [OF rest Cons.prems(2)] checkMacroEntry_messages [OF e, of d]
  show ?case by blast
qed

text \<open>
  Claim C1. When \<open>EndOfMainFile\<close> completes, every recorded macro that the
  preprocessor flags as a header guard has had the entry under the cleaned path
  of its file erased from \<open>Files\<close> before the headers without guards are
  reported, whatever \<open>shouldFixHeaderGuard\<close> answers: the diagnostics are those of
  the loop followed by those of \<open>checkGuardlessHeader\<close> for the remaining
  entries, none of which has that path as its key, and the loop emits neither
  the diagnostic about a missing guard nor the one about a guard after code.
\<close>

theorem guard_erases_file:
  assumes "EndOfMainFile SM Check st = Inr (st', diags)"
    and "(tok, md) \<in> set (Macros st)"
    and "isUsedForHeaderGuard (getMacroInfo md)"
    and "getFileEntryForID SM (getFileID SM (getDefinitionLoc (getMacroInfo md))) = Some FE"
  shows "\<exists>st1 diags1.
           checkMacros SM Check (Macros st) (st, []) = Inr (st1, diags1)
           \<and> cleanPath (FE_getName FE) \<notin> fst ` set (Files st1)
           \<and> diags = diags1 @ concat (map (checkGuardlessHeader SM Check (Macros st)) (Files st1))
           \<and> (\<forall>d\<in>set diags1.
                 diagMessage d \<noteq> ''header is missing header guard''
                 \<and> diagMessage d \<noteq> ''Header guard after code/includes. Consider moving it up.'')"
proof -
  from assms(1) obtain st1 diags1
    where loop: "checkMacros SM Check (Macros st) (st, []) = Inr (st1, diags1)"
      and out: "diags = diags1 @ checkGuardlessHeaders SM Check st1"
    by (auto simp: EndOfMainFile_def split: sum.splits)
  from checkMacros_erases [OF loop, of "(tok, md)" FE] assms(2,3,4)
  have gone: "cleanPath (FE_getName FE) \<notin> fst ` set (Files st1)" by simp
  from checkMacros_frame [OF loop] have same: "Macros st1 = Macros st" by simp
  have "\<forall>d\<in>set diags1.
          diagMessage d \<noteq> ''header is missing header guard''
          \<and> diagMessage d \<noteq> ''Header guard after code/includes. Consider moving it up.''"
  proof
    fix d assume "d \<in> set diags1"
    with checkMacros_messages [OF loop, of d]
    have "diagMessage d = ''header guard does not follow preferred style''
      \<or> diagMessage d = ''#endif for a header guard should reference the guard macro in a comment''"
      by simp
    then show "diagMessage d \<noteq> ''header is missing header guard''
          \<and> diagMessage d \<noteq> ''Header guard after code/includes. Consider moving it up.''"
      by auto
  qed
  with gone same loop out show ?thesis by (simp add: checkGuardlessHeaders_def)
qed

theorem guard_erases_file_witness:
  "EndOfMainFile (example_SM (\<lambda>FID. Some bar_h) 1 ''endif'')
       (example_check\<lparr> shouldFixHeaderGuard := \<lambda>FileName. False \<rparr>)
       \<lparr> Macros = [BAR_H], Files = [(''include/foo/bar.h'', bar_h)],
         Ifndefs = [IdentifierInfo ''BAR_H'' \<mapsto> (5, 8)], EndIfs = [5 \<mapsto> 60] \<rparr>
     = Inr (initial_state, [])
   \<and> (\<exists>st1. checkMacros (example_SM (\<lambda>FID. Some bar_h) 1 ''endif'')
         (example_check\<lparr> shouldFixHeaderGuard := \<lambda>FileName. False \<rparr>) [BAR_H]
         (\<lparr> Macros = [BAR_H], Files = [(''include/foo/bar.h'', bar_h)],
            Ifndefs = [IdentifierInfo ''BAR_H'' \<mapsto> (5, 8)], EndIfs = [5 \<mapsto> 60] \<rparr>, [])
         = Inr (st1, [])
       \<and> ''include/foo/bar.h'' \<notin> fst ` set (Files st1))"
proof -
  let ?SM = "example_SM (\<lambda>FID. Some bar_h) 1 ''endif''"
  let ?chk = "example_check\<lparr> shouldFixHeaderGuard := \<lambda>FileName. False \<rparr>"
  let ?st = "\<lparr> Macros = [BAR_H], Files = [(''include/foo/bar.h'', bar_h)],
         Ifndefs = [IdentifierInfo ''BAR_H'' \<mapsto> (5, 8)], EndIfs = [5 \<mapsto> 60] \<rparr>"
  have run: "EndOfMainFile ?SM ?chk ?st = Inr (initial_state, [])"
    by (simp add: EndOfMainFile_def checkMacroEntry_def checkGuardlessHeaders_def
        StringMap_erase_def cleanPath_bar_h initial_state_def example_defs)
  have fe: "getFileEntryForID ?SM (getFileID ?SM (getDefinitionLoc (getMacroInfo (snd BAR_H))))
      = Some bar_h"
    by (simp add: example_defs)
  have "(fst BAR_H, snd BAR_H) \<in> set (Macros ?st)"
    and "isUsedForHeaderGuard (getMacroInfo (snd BAR_H))"
    by (simp_all add: BAR_H_def)
  from guard_erases_file [OF run this fe]
  have "\<exists>st1. checkMacros ?SM ?chk [BAR_H] (?st, []) = Inr (st1, [])
       \<and> ''include/foo/bar.h'' \<notin> fst ` set (Files st1)"
    by (auto simp: bar_h_def cleanPath_bar_h)
  with run show ?thesis by simp
qed

section \<open>Headers without a guard\<close>

lemma find_first_match:
  "Ms = pre @ e # post \<Longrightarrow> P e \<Longrightarrow> \<forall>x\<in>set pre. \<not> P x \<Longrightarrow> find P Ms = Some e"
  by (induction pre arbitrary: Ms) auto

text \<open>
  Claim C2, amended. For an entry of \<open>Files\<close> whose path
  \<open>shouldSuggestToAddHeaderGuard\<close> accepts and whose start-of-file location is
  valid: if some recorded macro is spelled as the guard of the path, or as the
  guard followed by one underscore, with its name written in the same file as
  the start of the file, then exactly one diagnostic is emitted, at the name of
  the first such macro, with no edit, and none about a missing guard; otherwise
  exactly one diagnostic about the missing guard is emitted at the start of the
  file, with exactly two insertions: the \<open>#ifndef\<close> and \<open>#define\<close> lines at the
  start of the file, and at its end \<open>#endif\<close> with the guard in a comment when
  \<open>shouldSuggestEndifComment\<close> accepts the path, a plain \<open>#endif\<close> otherwise. An
  entry whose start-of-file location is invalid gets no diagnostic.
\<close>

theorem guardless_header_report:
  "(\<forall>pre e post.
      shouldSuggestToAddHeaderGuard Check FileName
      \<and> isValid (getLocForStartOfFile SM (translateFile SM FE))
      \<and> Ms = pre @ e # post
      \<and> (II_getName (getIdentifierInfo (fst e)) = getHeaderGuard Check FileName []
          \<or> II_getName (getIdentifierInfo (fst e)) = getHeaderGuard Check FileName [] @ ''_'')
      \<and> isWrittenInSameFile SM (getLocForStartOfFile SM (translateFile SM FE))
            (getLocation (fst e))
      \<and> (\<forall>x\<in>set pre.
            \<not> ((II_getName (getIdentifierInfo (fst x)) = getHeaderGuard Check FileName []
                 \<or> II_getName (getIdentifierInfo (fst x)) = getHeaderGuard Check FileName [] @ ''_'')
                \<and> isWrittenInSameFile SM (getLocForStartOfFile SM (translateFile SM FE))
                      (getLocation (fst x))))
      \<longrightarrow> checkGuardlessHeader SM Check Ms (FileName, FE) =
            [Diagnostic (getLocation (fst e))
               ''Header guard after code/includes. Consider moving it up.'' []])
   \<and> (shouldSuggestToAddHeaderGuard Check FileName
      \<and> isValid (getLocForStartOfFile SM (translateFile SM FE))
      \<and> (\<forall>x\<in>set Ms.
            \<not> ((II_getName (getIdentifierInfo (fst x)) = getHeaderGuard Check FileName []
                 \<or> II_getName (getIdentifierInfo (fst x)) = getHeaderGuard Check FileName [] @ ''_'')
                \<and> isWrittenInSameFile SM (getLocForStartOfFile SM (translateFile SM FE))
                      (getLocation (fst x))))
      \<longrightarrow> checkGuardlessHeader SM Check Ms (FileName, FE) =
           [Diagnostic (getLocForStartOfFile SM (translateFile SM FE))
              ''header is missing header guard''
              [CreateInsertion (getLocForStartOfFile SM (translateFile SM FE))
                 (''#ifndef '' @ getHeaderGuard Check FileName [] @ [CHR 0x0A]
                    @ ''#define '' @ getHeaderGuard Check FileName [] @ [CHR 0x0A, CHR 0x0A]),
               CreateInsertion (getLocForEndOfFile SM (translateFile SM FE))
                 (if shouldSuggestEndifComment Check FileName
                  then [CHR 0x0A] @ ''#endif  // '' @ getHeaderGuard Check FileName [] @ [CHR 0x0A]
                  else [CHR 0x0A] @ ''#endif'' @ [CHR 0x0A])]])
   \<and> (\<not> isValid (getLocForStartOfFile SM (translateFile SM FE))
      \<longrightarrow> checkGuardlessHeader SM Check Ms (FileName, FE) = [])"
  (is "?first \<and> ?missing \<and> ?invalid")
proof -
  let ?P = "isGuardMacroOf SM (getLocForStartOfFile SM (translateFile SM FE))
              (getHeaderGuard Check FileName [])"
  have P: "?P x \<longleftrightarrow>
        (II_getName (getIdentifierInfo (fst x)) = getHeaderGuard Check FileName []
         \<or> II_getName (getIdentifierInfo (fst x)) = getHeaderGuard Check FileName [] @ ''_'')
        \<and> isWrittenInSameFile SM (getLocForStartOfFile SM (translateFile SM FE))
              (getLocation (fst x))" for x
    by (simp add: isGuardMacroOf_def Let_def)
  have ?first
  proof (intro allI impI, elim conjE)
    fix pre e post
    assume ok: "shouldSuggestToAddHeaderGuard Check FileName"
      and start: "isValid (getLocForStartOfFile SM (translateFile SM FE))"
      and split: "Ms = pre @ e # post"
      and name: "II_getName (getIdentifierInfo (fst e)) = getHeaderGuard Check FileName []
          \<or> II_getName (getIdentifierInfo (fst e)) = getHeaderGuard Check FileName [] @ ''_''"
      and same: "isWrittenInSameFile SM (getLocForStartOfFile SM (translateFile SM FE))
            (getLocation (fst e))"
      and before: "\<forall>x\<in>set pre.
            \<not> ((II_getName (getIdentifierInfo (fst x)) = getHeaderGuard Check FileName []
                 \<or> II_getName (getIdentifierInfo (fst x)) = getHeaderGuard Check FileName [] @ ''_'')
                \<and> isWrittenInSameFile SM (getLocForStartOfFile SM (translateFile SM FE))
                      (getLocation (fst x)))"
    from name same have "?P e" by (simp only: P)
    moreover from before have "\<forall>x\<in>set pre. \<not> ?P x" by (simp only: P)
    ultimately have "find ?P Ms = Some e" using split by (intro find_first_match)
    with ok start
    show "checkGuardlessHeader SM Check Ms (FileName, FE) =
            [Diagnostic (getLocation (fst e))
               ''Header guard after code/includes. Consider moving it up.'' []]"
      by (simp add: checkGuardlessHeader_def Let_def)
  qed
  moreover have ?missing
  proof (intro impI, elim conjE)
    assume ok: "shouldSuggestToAddHeaderGuard Check FileName"
      and start: "isValid (getLocForStartOfFile SM (translateFile SM FE))"
      and none: "\<forall>x\<in>set Ms.
            \<not> ((II_getName (getIdentifierInfo (fst x)) = getHeaderGuard Check FileName []
                 \<or> II_getName (getIdentifierInfo (fst x)) = getHeaderGuard Check FileName [] @ ''_'')
                \<and> isWrittenInSameFile SM (getLocForStartOfFile SM (translateFile SM FE))
                      (getLocation (fst x)))"
    from none have "\<forall>x\<in>set Ms. \<not> ?P x" by (simp only: P)
    then have "find ?P Ms = None" by (auto simp: find_None_iff)
    with ok start
    show "checkGuardlessHeader SM Check Ms (FileName, FE) =
           [Diagnostic (getLocForStartOfFile SM (translateFile SM FE))
              ''header is missing header guard''
              [CreateInsertion (getLocForStartOfFile SM (translateFile SM FE))
                 (''#ifndef '' @ getHeaderGuard Check FileName [] @ [CHR 0x0A]
                    @ ''#define '' @ getHeaderGuard Check FileName [] @ [CHR 0x0A, CHR 0x0A]),
               CreateInsertion (getLocForEndOfFile SM (translateFile SM FE))
                 (if shouldSuggestEndifComment Check FileName
                  then [CHR 0x0A] @ ''#endif  // '' @ getHeaderGuard Check FileName [] @ [CHR 0x0A]
                  else [CHR 0x0A] @ ''#endif'' @ [CHR 0x0A])]]"
      by (simp add: checkGuardlessHeader_def Let_def)
  qed
  moreover have ?invalid
    by (simp add: checkGuardlessHeader_def Let_def)
  ultimately show ?thesis by blast
qed

theorem guardless_header_report_witness:
  "checkGuardlessHeader (example_SM (\<lambda>FID. Some bar_h) 1 ''endif'') example_check
       [BAR_H, FOO_BAR_H, FOO_BAR_H_again] (''include/foo/bar.h'', bar_h)
     = [Diagnostic 40 ''Header guard after code/includes. Consider moving it up.'' []]
   \<and> checkGuardlessHeader (example_SM (\<lambda>FID. Some bar_h) 1 ''endif'') example_check
       [BAR_H] (''include/foo/bar.h'', bar_h)
     = [Diagnostic 1 ''header is missing header guard''
          [CreateInsertion 1
             (''#ifndef FOO_BAR_H'' @ [CHR 0x0A] @ ''#define FOO_BAR_H'' @ [CHR 0x0A, CHR 0x0A]),
           CreateInsertion 90 ([CHR 0x0A] @ ''#endif  // FOO_BAR_H'' @ [CHR 0x0A])]]
   \<and> checkGuardlessHeader (example_SM (\<lambda>FID. Some bar_h) 0 ''endif'') example_check
       [BAR_H, FOO_BAR_H] (''include/foo/bar.h'', bar_h) = []"
proof -
  let ?SM = "example_SM (\<lambda>FID. Some bar_h) 1 ''endif''"
  let ?SMinv = "example_SM (\<lambda>FID. Some bar_h) 0 ''endif''"
  from guardless_header_report
    [of example_check "''include/foo/bar.h''" ?SM bar_h "[BAR_H, FOO_BAR_H, FOO_BAR_H_again]",
      THEN conjunct1, THEN spec, THEN spec, THEN spec,
      of "[BAR_H]" FOO_BAR_H "[FOO_BAR_H_again]"]
  have a: "checkGuardlessHeader ?SM example_check [BAR_H, FOO_BAR_H, FOO_BAR_H_again]
      (''include/foo/bar.h'', bar_h)
     = [Diagnostic 40 ''Header guard after code/includes. Consider moving it up.'' []]"
    by (simp add: example_defs isValid_def)
  from guardless_header_report
    [of example_check "''include/foo/bar.h''" ?SM bar_h "[BAR_H]", THEN conjunct2, THEN conjunct1]
  have b: "checkGuardlessHeader ?SM example_check [BAR_H] (''include/foo/bar.h'', bar_h)
     = [Diagnostic 1 ''header is missing header guard''
          [CreateInsertion 1
             (''#ifndef FOO_BAR_H'' @ [CHR 0x0A] @ ''#define FOO_BAR_H'' @ [CHR 0x0A, CHR 0x0A]),
           CreateInsertion 90 ([CHR 0x0A] @ ''#endif  // FOO_BAR_H'' @ [CHR 0x0A])]]"
    by (simp add: example_defs isValid_def)
  from guardless_header_report
    [of example_check "''include/foo/bar.h''" ?SMinv bar_h "[BAR_H, FOO_BAR_H]",
      THEN conjunct2, THEN conjunct2]
  have c: "checkGuardlessHeader ?SMinv example_check [BAR_H, FOO_BAR_H]
      (''include/foo/bar.h'', bar_h) = []"
    by (simp add: example_SM_def isValid_def)
  from a b c show ?thesis by simp
qed

text \<open>
  Claim C2 as stated fails: the entry of an accepted path whose start-of-file
  location is invalid is skipped, so that neither diagnostic is emitted.
\<close>

theorem guardless_invalid_start_counterexample:
  "shouldSuggestToAddHeaderGuard example_check ''include/foo/bar.h''
   \<and> run_unit (example_SM (\<lambda>FID. Some bar_h) 0 ''endif'') example_check
        [EvFileChanged 1 EnterFile C_User 0]
      = Inr (initial_state, [])
   \<and> Files (record_events (example_SM (\<lambda>FID. Some bar_h) 0 ''endif'')
        [EvFileChanged 1 EnterFile C_User 0]) = [(''include/foo/bar.h'', bar_h)]"
  by (simp add: run_unit_def record_events_def FileChanged_def EndOfMainFile_def
      checkGuardlessHeaders_def checkGuardlessHeader_def isValid_def initial_state_def
      cleanPath_bar_h example_defs)

section \<open>One entry for a path\<close>

lemma checkGuardlessHeader_length: "length (checkGuardlessHeader SM Check Ms p) \<le> 1"
  by (simp add: checkGuardlessHeader_def Let_def split: option.splits)

lemma StringMap_assign_keys: "fst ` set (StringMap_assign k v m) = insert k (fst ` set m)"
  by (induction m) auto

lemma StringMap_assign_distinct:
  "distinct (map fst m) \<Longrightarrow> distinct (map fst (StringMap_assign k v m))"
proof (induction m)
  case Nil
  then show ?case by simp
next
  case (Cons p m)
  then show ?case
    using StringMap_assign_keys [of k v m] by (auto simp: image_iff)
qed

lemma filter_key_le:
  "distinct (map fst m) \<Longrightarrow> length (filter (\<lambda>p. fst p = k) m) \<le> 1"
proof (induction m)
  case Nil
  then show ?case by simp
next
  case (Cons p m)
  then have "fst p = k \<Longrightarrow> filter (\<lambda>q. fst q = k) m = []"
    by (auto simp: filter_empty_conv image_iff)
  with Cons show ?case by auto
qed

lemma filter_key_one:
  "distinct (map fst m) \<Longrightarrow> k \<in> fst ` set m \<Longrightarrow> length (filter (\<lambda>p. fst p = k) m) = 1"
proof -
  assume d: "distinct (map fst m)" and k: "k \<in> fst ` set m"
  from k have "filter (\<lambda>p. fst p = k) m \<noteq> []"
    by (auto simp: filter_empty_conv)
  then have "0 < length (filter (\<lambda>p. fst p = k) m)" by simp
  with filter_key_le [OF d, of k] show ?thesis by linarith
qed

lemma handle_Files:
  "Files (handle SM st ev) = Files st \<or>
   (\<exists>Loc Prev FE. ev = EvFileChanged Loc EnterFile C_User Prev
       \<and> getFileEntryForID SM (getFileID SM Loc) = Some FE
       \<and> Files (handle SM st ev) = StringMap_assign (cleanPath (FE_getName FE)) FE (Files st))"
  by (cases ev) (auto simp: FileChanged_def Ifndef_def MacroDefined_def Endif_def split: option.splits)

lemma handle_Macros:
  "Macros (handle SM st ev) =
     Macros st @ (case ev of EvMacroDefined tok md \<Rightarrow> [(tok, md)] | _ \<Rightarrow> [])"
  by (cases ev) (auto simp: FileChanged_def Ifndef_def MacroDefined_def Endif_def split: option.splits)

lemma handle_keys:
  "fst ` set (Files (handle SM st ev)) = fst ` set (Files st) \<or>
   (\<exists>Loc Prev FE. ev = EvFileChanged Loc EnterFile C_User Prev
       \<and> getFileEntryForID SM (getFileID SM Loc) = Some FE
       \<and> fst ` set (Files (handle SM st ev)) =
           insert (cleanPath (FE_getName FE)) (fst ` set (Files st)))"
  by (cases ev)
    (simp_all add: FileChanged_def Ifndef_def MacroDefined_def Endif_def StringMap_assign_keys
      split: option.splits)

lemma foldl_handle_distinct:
  "distinct (map fst (Files st)) \<Longrightarrow> distinct (map fst (Files (foldl (handle SM) st evs)))"
proof (induction evs arbitrary: st)
  case Nil
  then show ?case by simp
next
  case (Cons ev evs)
  from handle_Files [of SM st ev] Cons.prems
  have "distinct (map fst (Files (handle SM st ev)))"
    by (auto simp: StringMap_assign_distinct)
  from Cons.IH [OF this] show ?case by simp
qed

lemma foldl_handle_keys_mono:
  "k \<in> fst ` set (Files st) \<Longrightarrow> k \<in> fst ` set (Files (foldl (handle SM) st evs))"
proof (induction evs arbitrary: st)
  case Nil
  then show ?case by simp
next
  case (Cons ev evs)
  from handle_keys [of SM st ev] Cons.prems
  have "k \<in> fst ` set (Files (handle SM st ev))"
    by blast
  from Cons.IH [OF this] show ?case by simp
qed

lemma foldl_handle_entered:
  "EvFileChanged Loc EnterFile C_User Prev \<in> set evs \<Longrightarrow>
   getFileEntryForID SM (getFileID SM Loc) = Some FE \<Longrightarrow>
   cleanPath (FE_getName FE) \<in> fst ` set (Files (foldl (handle SM) st evs))"
proof (induction evs arbitrary: st)
  case Nil
  then show ?case by simp
next
  case (Cons ev evs)
  show ?case
  proof (cases "ev = EvFileChanged Loc EnterFile C_User Prev")
    case True
    with Cons.prems(2)
    have "cleanPath (FE_getName FE) \<in> fst ` set (Files (handle SM st ev))"
      by (simp add: FileChanged_def StringMap_assign_keys)
    from foldl_handle_keys_mono [OF this] show ?thesis by simp
  next
    case False
    with Cons.prems have "EvFileChanged Loc EnterFile C_User Prev \<in> set evs" by simp
    from Cons.IH [OF this Cons.prems(2)] show ?thesis by simp
  qed
qed

lemma foldl_handle_keys_from:
  "k \<in> fst ` set (Files (foldl (handle SM) st evs)) \<Longrightarrow>
   k \<in> fst ` set (Files st) \<or>
   (\<exists>Loc Prev FE. EvFileChanged Loc EnterFile C_User Prev \<in> set evs
      \<and> getFileEntryForID SM (getFileID SM Loc) = Some FE \<and> k = cleanPath (FE_getName FE))"
proof (induction evs arbitrary: st)
  case Nil
  then show ?case by simp
next
  case (Cons ev evs)
  from Cons.IH [of "handle SM st ev"] Cons.prems
  consider "k \<in> fst ` set (Files (handle SM st ev))"
    | "\<exists>Loc Prev FE. EvFileChanged Loc EnterFile C_User Prev \<in> set evs
      \<and> getFileEntryForID SM (getFileID SM Loc) = Some FE \<and> k = cleanPath (FE_getName FE)"
    by auto
  then show ?case
  proof cases
    case 1
    with handle_keys [of SM st ev] show ?thesis
    proof (elim disjE exE conjE)
      assume "fst ` set (Files (handle SM st ev)) = fst ` set (Files st)"
      with 1 show ?thesis by simp
    next
      fix Loc Prev FE
      assume ev: "ev = EvFileChanged Loc EnterFile C_User Prev"
        and fe: "getFileEntryForID SM (getFileID SM Loc) = Some FE"
        and keys: "fst ` set (Files (handle SM st ev)) =
           insert (cleanPath (FE_getName FE)) (fst ` set (Files st))"
      from 1 keys have "k = cleanPath (FE_getName FE) \<or> k \<in> fst ` set (Files st)" by simp
      then show ?thesis
      proof
        assume "k = cleanPath (FE_getName FE)"
        with ev fe have "\<exists>Loc Prev FE. EvFileChanged Loc EnterFile C_User Prev \<in> set (ev # evs)
          \<and> getFileEntryForID SM (getFileID SM Loc) = Some FE \<and> k = cleanPath (FE_getName FE)"
          by (intro exI [of _ Loc] exI [of _ Prev] exI [of _ FE]) simp
        then show ?thesis ..
      next
        assume "k \<in> fst ` set (Files st)"
        then show ?thesis ..
      qed
    qed
  next
    case 2
    then show ?thesis by auto
  qed
qed

lemma foldl_handle_macros_from:
  "e \<in> set (Macros (foldl (handle SM) st evs)) \<Longrightarrow>
   e \<in> set (Macros st) \<or> EvMacroDefined (fst e) (snd e) \<in> set evs"
proof (induction evs arbitrary: st)
  case Nil
  then show ?case by simp
next
  case (Cons ev evs)
  from Cons.IH [of "handle SM st ev"] Cons.prems
  consider "e \<in> set (Macros (handle SM st ev))" | "EvMacroDefined (fst e) (snd e) \<in> set evs"
    by auto
  then show ?case
  proof cases
    case 1
    then show ?thesis
      unfolding handle_Macros by (cases ev) auto
  next
    case 2
    then show ?thesis by simp
  qed
qed

lemma record_events_distinct: "distinct (map fst (Files (record_events SM evs)))"
  unfolding record_events_def
  by (rule foldl_handle_distinct) (simp add: initial_state_def)

text \<open>
  Claim C6. When two user files are entered whose names clean to the same path,
  \<open>Files\<close> holds exactly one entry under that path at the end of the unit's
  events; when \<open>EndOfMainFile\<close> completes, the loop over the macros has emitted
  no diagnostic about a missing guard, and \<open>checkGuardlessHeaders\<close> emits at most
  one diagnostic for the entries under that path.
\<close>

theorem duplicate_routes_one_record:
  assumes "EvFileChanged Loc1 EnterFile C_User Prev1 \<in> set evs"
    and "getFileEntryForID SM (getFileID SM Loc1) = Some FE1"
    and "EvFileChanged Loc2 EnterFile C_User Prev2 \<in> set evs"
    and "getFileEntryForID SM (getFileID SM Loc2) = Some FE2"
    and "cleanPath (FE_getName FE1) = cleanPath (FE_getName FE2)"
  shows "length (filter (\<lambda>p. fst p = cleanPath (FE_getName FE2)) (Files (record_events SM evs))) = 1
    \<and> (\<forall>st' diags. run_unit SM Check evs = Inr (st', diags) \<longrightarrow>
          (\<exists>st1 diags1.
              checkMacros SM Check (Macros (record_events SM evs)) (record_events SM evs, [])
                = Inr (st1, diags1)
              \<and> diags = diags1 @ checkGuardlessHeaders SM Check st1
              \<and> (\<forall>d\<in>set diags1. diagMessage d \<noteq> ''header is missing header guard'')
              \<and> length (concat (map (checkGuardlessHeader SM Check (Macros st1))
                    (filter (\<lambda>p. fst p = cleanPath (FE_getName FE2)) (Files st1)))) \<le> 1))"
proof (rule conjI, goal_cases)
  case 1
  from foldl_handle_entered [OF assms(3,4)]
  have "cleanPath (FE_getName FE2) \<in> fst ` set (Files (record_events SM evs))"
    by (simp add: record_events_def)
  with record_events_distinct
  show "length (filter (\<lambda>p. fst p = cleanPath (FE_getName FE2)) (Files (record_events SM evs))) = 1"
    by (rule filter_key_one)
next
  case 2
  show ?case
  proof (intro allI impI)
  fix st' diags
  assume run: "run_unit SM Check evs = Inr (st', diags)"
  let ?st = "record_events SM evs"
  from run obtain st1 diags1
    where loop: "checkMacros SM Check (Macros ?st) (?st, []) = Inr (st1, diags1)"
      and out: "diags = diags1 @ checkGuardlessHeaders SM Check st1"
    by (auto simp: run_unit_def EndOfMainFile_def split: sum.splits)
  from checkMacros_frame [OF loop] obtain keep where "Files st1 = filter keep (Files ?st)"
    by auto
  with record_events_distinct [of SM evs] have "distinct (map fst (Files st1))"
    by (simp add: distinct_map_filter)
  from filter_key_le [OF this, of "cleanPath (FE_getName FE2)"]
  have "length (filter (\<lambda>p. fst p = cleanPath (FE_getName FE2)) (Files st1)) \<le> 1" .
  then consider "filter (\<lambda>p. fst p = cleanPath (FE_getName FE2)) (Files st1) = []"
    | p where "filter (\<lambda>p. fst p = cleanPath (FE_getName FE2)) (Files st1) = [p]"
    by (cases "filter (\<lambda>p. fst p = cleanPath (FE_getName FE2)) (Files st1)") auto
  then have "length (concat (map (checkGuardlessHeader SM Check (Macros st1))
                    (filter (\<lambda>p. fst p = cleanPath (FE_getName FE2)) (Files st1)))) \<le> 1"
  proof cases
    case 1
    then show ?thesis by simp
  next
    case 2
    with checkGuardlessHeader_length [of SM Check "Macros st1" p] show ?thesis by simp
  qed
  moreover have "\<forall>d\<in>set diags1. diagMessage d \<noteq> ''header is missing header guard''"
  proof
    fix d assume "d \<in> set diags1"
    with checkMacros_messages [OF loop, of d]
    have "diagMessage d = ''header guard does not follow preferred style''
      \<or> diagMessage d = ''#endif for a header guard should reference the guard macro in a comment''"
      by simp
    then show "diagMessage d \<noteq> ''header is missing header guard''" by auto
  qed
  ultimately
  show "\<exists>st1 diags1.
              checkMacros SM Check (Macros ?st) (?st, []) = Inr (st1, diags1)
              \<and> diags = diags1 @ checkGuardlessHeaders SM Check st1
              \<and> (\<forall>d\<in>set diags1. diagMessage d \<noteq> ''header is missing header guard'')
              \<and> length (concat (map (checkGuardlessHeader SM Check (Macros st1))
                    (filter (\<lambda>p. fst p = cleanPath (FE_getName FE2)) (Files st1)))) \<le> 1"
    using loop out by blast
  qed
qed

theorem duplicate_routes_one_record_witness:
  "run_unit
      (example_SM (\<lambda>FID. if FID = 1 then Some bar_h
                          else Some (FileEntry ''include/foo/./bar.h'' 1)) 1 ''endif'')
      example_check
      [EvFileChanged 1 EnterFile C_User 0, EvFileChanged 150 EnterFile C_User 1]
     = Inr (initial_state,
         [Diagnostic 1 ''header is missing header guard''
            [CreateInsertion 1
               (''#ifndef FOO_BAR_H'' @ [CHR 0x0A] @ ''#define FOO_BAR_H'' @ [CHR 0x0A, CHR 0x0A]),
             CreateInsertion 90 ([CHR 0x0A] @ ''#endif  // FOO_BAR_H'' @ [CHR 0x0A])]])
   \<and> length (filter (\<lambda>p. fst p = ''include/foo/bar.h'')
        (Files (record_events
           (example_SM (\<lambda>FID. if FID = 1 then Some bar_h
                               else Some (FileEntry ''include/foo/./bar.h'' 1)) 1 ''endif'')
           [EvFileChanged 1 EnterFile C_User 0, EvFileChanged 150 EnterFile C_User 1]))) = 1"
proof -
  let ?SM = "example_SM (\<lambda>FID. if FID = 1 then Some bar_h
                          else Some (FileEntry ''include/foo/./bar.h'' 1)) 1 ''endif''"
  let ?evs = "[EvFileChanged 1 EnterFile C_User 0, EvFileChanged 150 EnterFile C_User 1]"
  have e1: "EvFileChanged 1 EnterFile C_User 0 \<in> set ?evs"
    and e2: "EvFileChanged 150 EnterFile C_User 1 \<in> set ?evs"
    by simp_all
  have f1: "getFileEntryForID ?SM (getFileID ?SM 1) = Some bar_h"
    and f2: "getFileEntryForID ?SM (getFileID ?SM 150) = Some (FileEntry ''include/foo/./bar.h'' 1)"
    by (simp_all add: example_SM_def)
  have same: "cleanPath (FE_getName bar_h) = cleanPath (FE_getName (FileEntry ''include/foo/./bar.h'' 1))"
    by (simp add: bar_h_def cleanPath_bar_h cleanPath_examples)
  have run: "run_unit ?SM example_check ?evs
     = Inr (initial_state,
         [Diagnostic 1 ''header is missing header guard''
            [CreateInsertion 1
               (''#ifndef FOO_BAR_H'' @ [CHR 0x0A] @ ''#define FOO_BAR_H'' @ [CHR 0x0A, CHR 0x0A]),
             CreateInsertion 90 ([CHR 0x0A] @ ''#endif  // FOO_BAR_H'' @ [CHR 0x0A])]])"
    by (simp add: run_unit_def record_events_def FileChanged_def EndOfMainFile_def
      checkGuardlessHeaders_def checkGuardlessHeader_def isValid_def initial_state_def
      cleanPath_examples cleanPath_bar_h example_defs)
  from duplicate_routes_one_record [OF e1 f1 e2 f2 same, of example_check]
  have "length (filter (\<lambda>p. fst p = ''include/foo/bar.h'') (Files (record_events ?SM ?evs))) = 1"
    by (simp add: cleanPath_examples)
  with run show ?thesis by simp
qed

section \<open>The end of a unit\<close>

lemma checkMacros_no_guards:
  "\<forall>e\<in>set ms. \<not> isUsedForHeaderGuard (getMacroInfo (snd e)) \<Longrightarrow>
   checkMacros SM Check ms acc = Inr acc"
  by (induction ms) (simp_all add: checkMacroEntry_skip)

lemma checkGuardlessHeaders_none:
  "\<forall>p\<in>set (Files st). \<not> shouldSuggestToAddHeaderGuard Check (fst p) \<Longrightarrow>
   checkGuardlessHeaders SM Check st = []"
  by (simp add: checkGuardlessHeaders_def checkGuardlessHeader_def Let_def)

lemma cleared_state:
  "(st :: PPState)\<lparr> Macros := [], Files := [], Ifndefs := Map.empty, EndIfs := Map.empty \<rparr>
     = initial_state"
  by (simp add: initial_state_def)

text \<open>
  Claim C7, amended. When \<open>EndOfMainFile\<close> completes, the four containers are
  empty, whatever was recorded. When no recorded macro is flagged as a header
  guard and \<open>shouldSuggestToAddHeaderGuard\<close> accepts the cleaned path of no
  entered user file, \<open>EndOfMainFile\<close> completes with no diagnostic.
\<close>

theorem end_of_unit_clears:
  "(\<forall>st' diags. run_unit SM Check evs = Inr (st', diags) \<longrightarrow>
       Macros st' = [] \<and> Files st' = [] \<and> Ifndefs st' = Map.empty \<and> EndIfs st' = Map.empty)
   \<and> ((\<forall>tok md. EvMacroDefined tok md \<in> set evs \<longrightarrow> \<not> isUsedForHeaderGuard (getMacroInfo md))
       \<and> (\<forall>Loc Prev FE. EvFileChanged Loc EnterFile C_User Prev \<in> set evs
             \<and> getFileEntryForID SM (getFileID SM Loc) = Some FE
             \<longrightarrow> \<not> shouldSuggestToAddHeaderGuard Check (cleanPath (FE_getName FE)))
       \<longrightarrow> run_unit SM Check evs = Inr (initial_state, []))"
  (is "?cleared \<and> (?quiet \<longrightarrow> ?silent)")
proof (rule conjI)
  show ?cleared
  proof (intro allI impI)
    fix st' diags
  assume "run_unit SM Check evs = Inr (st', diags)"
  then obtain acc :: "PPState \<times> Diagnostic list" where "st' = (fst acc)\<lparr> Macros := [], Files := [], Ifndefs := Map.empty,
      EndIfs := Map.empty \<rparr>"
    by (auto simp: run_unit_def EndOfMainFile_def split: sum.splits)
  then show "Macros st' = [] \<and> Files st' = [] \<and> Ifndefs st' = Map.empty \<and> EndIfs st' = Map.empty"
      by simp
  qed
next
  let ?st = "record_events SM evs"
  show "?quiet \<longrightarrow> ?silent"
  proof (rule impI)
  assume h: ?quiet
  have "\<forall>e\<in>set (Macros ?st). \<not> isUsedForHeaderGuard (getMacroInfo (snd e))"
  proof
    fix e assume "e \<in> set (Macros ?st)"
    from foldl_handle_macros_from [OF this [unfolded record_events_def]]
    have "EvMacroDefined (fst e) (snd e) \<in> set evs" by (simp add: initial_state_def)
    with h show "\<not> isUsedForHeaderGuard (getMacroInfo (snd e))" by blast
  qed
  then have loop: "checkMacros SM Check (Macros ?st) (?st, []) = Inr (?st, [])"
    by (rule checkMacros_no_guards)
  have "\<forall>p\<in>set (Files ?st). \<not> shouldSuggestToAddHeaderGuard Check (fst p)"
  proof
    fix p assume "p \<in> set (Files ?st)"
    then have "fst p \<in> fst ` set (Files (foldl (handle SM) initial_state evs))"
      by (simp add: record_events_def)
    from foldl_handle_keys_from [OF this]
    obtain Loc Prev FE where "EvFileChanged Loc EnterFile C_User Prev \<in> set evs"
      "getFileEntryForID SM (getFileID SM Loc) = Some FE" "fst p = cleanPath (FE_getName FE)"
      by (auto simp: initial_state_def)
    with h show "\<not> shouldSuggestToAddHeaderGuard Check (fst p)" by metis
  qed
  then have "checkGuardlessHeaders SM Check ?st = []"
    by (rule checkGuardlessHeaders_none)
  with loop show "run_unit SM Check evs = Inr (initial_state, [])"
    by (simp add: run_unit_def EndOfMainFile_def cleared_state)
  qed
qed

theorem end_of_unit_clears_witness:
  "run_unit (example_SM (\<lambda>FID. Some main_cpp) 1 ''int x;'') example_check
      [EvFileChanged 1 EnterFile C_User 0, EvMacroDefined (fst FOO_BAR_H) (snd FOO_BAR_H)]
     = Inr (initial_state, [])
   \<and> Files (record_events (example_SM (\<lambda>FID. Some main_cpp) 1 ''int x;'')
        [EvFileChanged 1 EnterFile C_User 0, EvMacroDefined (fst FOO_BAR_H) (snd FOO_BAR_H)])
     = [(''main.cpp'', main_cpp)]"
proof -
  let ?SM = "example_SM (\<lambda>FID. Some main_cpp) 1 ''int x;''"
  let ?evs = "[EvFileChanged 1 EnterFile C_User 0, EvMacroDefined (fst FOO_BAR_H) (snd FOO_BAR_H)]"
  have m: "\<forall>tok md. EvMacroDefined tok md \<in> set ?evs \<longrightarrow> \<not> isUsedForHeaderGuard (getMacroInfo md)"
    by (simp add: FOO_BAR_H_def)
  have f: "\<forall>Loc Prev FE. EvFileChanged Loc EnterFile C_User Prev \<in> set ?evs
             \<and> getFileEntryForID ?SM (getFileID ?SM Loc) = Some FE
             \<longrightarrow> \<not> shouldSuggestToAddHeaderGuard example_check (cleanPath (FE_getName FE))"
    by (auto simp: example_defs main_cpp_def cleanPath_examples)
  from end_of_unit_clears [of ?SM example_check ?evs] m f
  have "run_unit ?SM example_check ?evs = Inr (initial_state, [])" by blast
  moreover have "Files (record_events ?SM ?evs) = [(''main.cpp'', main_cpp)]"
    by (simp add: record_events_def FileChanged_def MacroDefined_def initial_state_def
        cleanPath_examples main_cpp_def example_defs)
  ultimately show ?thesis by simp
qed

text \<open>
  Claim C7 as stated fails: the main file is entered like any other user file,
  so a unit that is one header \<open>main.h\<close> without a guard, including nothing,
  gets the diagnostic about the missing guard.
\<close>

theorem main_header_counterexample:
  "run_unit (example_SM (\<lambda>FID. Some main_h) 1 ''int x;'')
      (default_check (\<lambda>FileName OldGuard. ''MAIN_H''))
      [EvFileChanged 1 EnterFile C_User 0]
     = Inr (initial_state,
         [Diagnostic 1 ''header is missing header guard''
            [CreateInsertion 1
               (''#ifndef MAIN_H'' @ [CHR 0x0A] @ ''#define MAIN_H'' @ [CHR 0x0A, CHR 0x0A]),
             CreateInsertion 90 ([CHR 0x0A] @ ''#endif  // MAIN_H'' @ [CHR 0x0A])]])"
  by (simp add: run_unit_def record_events_def FileChanged_def EndOfMainFile_def
      checkGuardlessHeaders_def checkGuardlessHeader_def isValid_def initial_state_def
      cleanPath_examples main_h_def example_defs)

section \<open>A file without a file entry\<close>

text \<open>
  Claim C9 says that \<open>EndOfMainFile\<close> never fails. \<open>FileChanged\<close> tests the file
  entry of its location before it reads the name; the loop of \<open>EndOfMainFile\<close>
  does not, and fails on a header guard defined in a buffer that has no file
  entry.
\<close>

theorem null_file_entry:
  "run_unit (example_SM (\<lambda>FID. None) 1 ''endif'') example_check
      [EvIfndef 5 (Token (IdentifierInfo ''BAR_H'') 8) None,
       EvMacroDefined (fst BAR_H) (snd BAR_H),
       EvEndif 60 5]
     = Inl NullFileEntry"
  by (simp add: run_unit_def record_events_def Ifndef_def MacroDefined_def Endif_def
      EndOfMainFile_def checkMacroEntry_def initial_state_def Let_def example_defs)

end
